theory Spec2Isabelle
  imports Complex_Main
begin

section \<open>Data model\<close>

text \<open>
  The program keeps its data in pandas frames. A frame returned by \<open>fetch_klines\<close> has a
  range index and the six candle columns; \<open>generate_signals\<close> adds the columns
  \<open>EMA_fast\<close>, \<open>EMA_slow\<close>, \<open>RSI\<close>, \<open>ATR\<close> and \<open>signal\<close> to the same frame.

  Prices are finite floats (the exchange's decimal strings cast by \<open>astype(float)\<close>) and
  are modelled as reals: the rounding error of float arithmetic is not modelled. A float
  that may be NaN is a \<open>pyfloat\<close>; a cell of an indicator column is either a float or
  Python's \<open>None\<close> (the column is \<open>None\<close> throughout when the indicator library returned
  no series). The \<open>signal\<close> column holds \<open>None\<close>, \<open>'LONG'\<close> or \<open>'SHORT'\<close>.
\<close>

datatype error = TypeError | ZeroDivisionError | ConnectionError

datatype signal = LONG | SHORT

datatype pyfloat = Num real | NaN

datatype cell = PyNone | Fl pyfloat

record candle =
  open_time :: int
  open_price :: real
  high :: real
  low :: real
  close :: real
  volume :: real

record row =
  bar :: candle
  EMA_fast :: cell
  EMA_slow :: cell
  RSI :: cell
  ATR :: cell
  signal :: "signal option"

type_synonym series = "pyfloat list"

text \<open>
  The indicator library (\<open>pandas_ta\<close>) is not part of the repository; it is a parameter
  of the model. Each call returns a float series or \<open>None\<close>.
\<close>

record ta =
  ema :: "real list \<Rightarrow> nat \<Rightarrow> series option"
  rsi :: "real list \<Rightarrow> nat \<Rightarrow> series option"
  atr :: "real list \<Rightarrow> real list \<Rightarrow> real list \<Rightarrow> nat \<Rightarrow> series option"

section \<open>Python comparisons and arithmetic\<close>

text \<open>A comparison with a NaN operand is false.\<close>

fun flt :: "pyfloat \<Rightarrow> pyfloat \<Rightarrow> bool" where
  "flt (Num a) (Num b) = (a < b)"
| "flt _ _ = False"

definition fgt :: "pyfloat \<Rightarrow> pyfloat \<Rightarrow> bool" where
  "fgt a b = flt b a"

text \<open>Ordering \<open>None\<close> against anything raises \<open>TypeError\<close>.\<close>

fun py_lt :: "cell \<Rightarrow> cell \<Rightarrow> error + bool" where
  "py_lt (Fl a) (Fl b) = Inr (flt a b)"
| "py_lt _ _ = Inl TypeError"

definition py_gt :: "cell \<Rightarrow> cell \<Rightarrow> error + bool" where
  "py_gt a b = py_lt b a"

text \<open>\<open>a and b\<close>: \<open>b\<close> is not evaluated (and cannot raise) when \<open>a\<close> is false.\<close>

definition py_and :: "error + bool \<Rightarrow> error + bool \<Rightarrow> error + bool" where
  "py_and a b = (case a of Inl e \<Rightarrow> Inl e | Inr t \<Rightarrow> (if t then b else Inr False))"

fun fsub :: "pyfloat \<Rightarrow> pyfloat \<Rightarrow> pyfloat" where
  "fsub (Num a) (Num b) = Num (a - b)"
| "fsub _ _ = NaN"

fun fadd :: "pyfloat \<Rightarrow> pyfloat \<Rightarrow> pyfloat" where
  "fadd (Num a) (Num b) = Num (a + b)"
| "fadd _ _ = NaN"

fun fmul :: "pyfloat \<Rightarrow> pyfloat \<Rightarrow> pyfloat" where
  "fmul (Num a) (Num b) = Num (a * b)"
| "fmul _ _ = NaN"

text \<open>\<open>atr * k\<close> for an integer \<open>k\<close>: \<open>None * k\<close> raises \<open>TypeError\<close>.\<close>

fun py_mul_int :: "cell \<Rightarrow> int \<Rightarrow> error + pyfloat" where
  "py_mul_int (Fl a) k = Inr (fmul a (Num (of_int k)))"
| "py_mul_int PyNone k = Inl TypeError"

section \<open>\<open>generate_signals\<close>\<close>

text \<open>
  \<open>df[col] = s\<close>: a series is aligned on the frame's range index (a missing label gives
  NaN, a label beyond the frame is dropped); the scalar \<open>None\<close> fills the column.
\<close>

definition assign_column :: "nat \<Rightarrow> series option \<Rightarrow> cell list" where
  "assign_column n r =
     (case r of
        None \<Rightarrow> replicate n PyNone
      | Some s \<Rightarrow> map (\<lambda>i. Fl (if i < length s then s ! i else NaN)) [0..<n])"

text \<open>The frame after the four indicator assignments and \<open>df['signal'] = None\<close>.\<close>

definition indicators :: "ta \<Rightarrow> candle list \<Rightarrow> row list" where
  "indicators lib df =
     (let n = length df;
          ema_fast = assign_column n (ema lib (map close df) 10);
          ema_slow = assign_column n (ema lib (map close df) 30);
          rsi_col = assign_column n (rsi lib (map close df) 14);
          atr_col = assign_column n (atr lib (map high df) (map low df) (map close df) 14)
      in map (\<lambda>i. \<lparr>bar = df ! i, EMA_fast = ema_fast ! i, EMA_slow = ema_slow ! i,
                    RSI = rsi_col ! i, ATR = atr_col ! i, signal = None\<rparr>) [0..<n])"

text \<open>
  The body of the labelling loop for one pair of rows: \<open>Inr (Some d)\<close> when a branch
  assigns \<open>d\<close>, \<open>Inr None\<close> when neither branch is taken, \<open>Inl\<close> when a comparison raises.
\<close>

definition label :: "row \<Rightarrow> row \<Rightarrow> error + signal option" where
  "label prev cur =
     (case py_and (py_lt (EMA_fast prev) (EMA_slow prev))
             (py_and (py_gt (EMA_fast cur) (EMA_slow cur))
                     (py_lt (RSI cur) (Fl (Num 70)))) of
        Inl e \<Rightarrow> Inl e
      | Inr True \<Rightarrow> Inr (Some LONG)
      | Inr False \<Rightarrow>
          (case py_and (py_gt (EMA_fast prev) (EMA_slow prev))
                  (py_and (py_lt (EMA_fast cur) (EMA_slow cur))
                          (py_gt (RSI cur) (Fl (Num 30)))) of
             Inl e \<Rightarrow> Inl e
           | Inr True \<Rightarrow> Inr (Some SHORT)
           | Inr False \<Rightarrow> Inr None))"

text \<open>\<open>df.at[i, 'signal'] = d\<close>, or no assignment.\<close>

definition set_signal :: "row list \<Rightarrow> nat \<Rightarrow> signal option \<Rightarrow> row list" where
  "set_signal df i s = (case s of None \<Rightarrow> df | Some d \<Rightarrow> df[i := (df ! i)\<lparr>signal := Some d\<rparr>])"

text \<open>
  \<open>for i in range(1, len(df))\<close>, from index \<open>i\<close> on. The frame is mutated in place, so
  when a comparison raises the rows labelled so far stay labelled: the result is the
  exception, if any, and the frame as the loop left it.
\<close>

function label_loop :: "nat \<Rightarrow> row list \<Rightarrow> error option \<times> row list" where
  "label_loop i df =
     (if i < length df then
        (case label (df ! (i - 1)) (df ! i) of
           Inl e \<Rightarrow> (Some e, df)
         | Inr s \<Rightarrow> label_loop (Suc i) (set_signal df i s))
      else (None, df))"
  by pat_completeness auto
termination
  by (relation "measure (\<lambda>(i, df). length df - i)")
     (auto simp: set_signal_def split: option.splits)

definition generate_signals :: "ta \<Rightarrow> candle list \<Rightarrow> error + row list" where
  "generate_signals lib df =
     (case label_loop 1 (indicators lib df) of
        (None, rows) \<Rightarrow> Inr rows
      | (Some e, rows) \<Rightarrow> Inl e)"

text \<open>
  In the program the frame is an object: \<open>generate_signals(df)\<close> assigns the new columns
  on its argument and returns that same object. The heap maps a reference to the frame
  it holds; a frame is either as fetched (candle columns only) or carries the added
  columns. Assigning to a column that exists overwrites it.
\<close>

type_synonym ref = nat

datatype frame = Candles "candle list" | Rows "row list"

type_synonym heap = "ref \<Rightarrow> frame"

fun candles_of :: "frame \<Rightarrow> candle list" where
  "candles_of (Candles cs) = cs"
| "candles_of (Rows rs) = map bar rs"

definition generate_signals_heap :: "ta \<Rightarrow> heap \<Rightarrow> ref \<Rightarrow> (error + ref) \<times> heap" where
  "generate_signals_heap lib h df =
     (case label_loop 1 (indicators lib (candles_of (h df))) of
        (None, rows) \<Rightarrow> (Inr df, h(df := Rows rows))
      | (Some e, rows) \<Rightarrow> (Inl e, h(df := Rows rows)))"

section \<open>\<open>fetch_klines\<close>\<close>

text \<open>
  The exchange is outside the program. It is a parameter: what the \<open>t\<close>-th call made to
  it answers to a request, \<open>None\<close> when the call (or the conversion of its answer to a
  frame) raises. The state threaded through is the number of calls made so far.
\<close>

record request =
  symbol :: string
  interval :: string
  limit :: int

type_synonym exchange = "nat \<Rightarrow> request \<Rightarrow> candle list option"

text \<open>\<open>for attempt in range(3)\<close> with \<open>k\<close> attempts left.\<close>

fun fetch_attempts :: "exchange \<Rightarrow> request \<Rightarrow> nat \<Rightarrow> nat \<Rightarrow> (error + candle list) \<times> nat" where
  "fetch_attempts ex req 0 t = (Inl ConnectionError, t)"
| "fetch_attempts ex req (Suc k) t =
     (case ex t req of
        Some df \<Rightarrow> (Inr df, Suc t)
      | None \<Rightarrow> fetch_attempts ex req k (Suc t))"

definition fetch_klines ::
  "exchange \<Rightarrow> string \<Rightarrow> string \<Rightarrow> int \<Rightarrow> nat \<Rightarrow> (error + candle list) \<times> nat" where
  "fetch_klines ex smb itv lmt t =
     fetch_attempts ex \<lparr>symbol = smb, interval = itv, limit = lmt\<rparr> 3 t"

section \<open>\<open>calculate_win_rate\<close>\<close>

text \<open>\<open>df.dropna(subset=['signal'])\<close>: the labelled rows, each with its index label.\<close>

definition dropna_signal :: "row list \<Rightarrow> (nat \<times> row) list" where
  "dropna_signal df = filter (\<lambda>(idx, r). signal r \<noteq> None) (zip [0..<length df] df)"

text \<open>
  \<open>tail(n)\<close> is \<open>iloc[-n:]\<close>, and the empty frame for \<open>n = 0\<close>: the last \<open>n\<close> rows for a
  positive \<open>n\<close>, all rows but the first \<open>-n\<close> for a negative one.
\<close>

definition tail :: "int \<Rightarrow> 'a list \<Rightarrow> 'a list" where
  "tail n xs =
     (if n = 0 then []
      else if 0 < n then drop (length xs - nat n) xs
      else drop (nat (- n)) xs)"

text \<open>
  \<open>df['close'].shift(-1).iloc[idx]\<close>: the close of the following bar, NaN on the last
  bar. (\<open>idx\<close> is an index label of \<open>df\<close>, so it is in range.)
\<close>

definition next_price :: "row list \<Rightarrow> nat \<Rightarrow> pyfloat" where
  "next_price df idx =
     (if Suc idx < length df then Num (close (bar (df ! Suc idx))) else NaN)"

definition is_win :: "row list \<Rightarrow> nat \<times> row \<Rightarrow> bool" where
  "is_win df = (\<lambda>(idx, r).
     (signal r = Some LONG \<and> fgt (next_price df idx) (Num (close (bar r)))) \<or>
     (signal r = Some SHORT \<and> flt (next_price df idx) (Num (close (bar r)))))"

text \<open>\<open>for idx, row in signals.iterrows()\<close> with the counter \<open>wins\<close>.\<close>

fun count_wins :: "row list \<Rightarrow> (nat \<times> row) list \<Rightarrow> nat \<Rightarrow> nat" where
  "count_wins df [] wins = wins"
| "count_wins df (s # signals) wins =
     count_wins df signals (if is_win df s then wins + 1 else wins)"

text \<open>Float division raises on a zero divisor.\<close>

definition py_div :: "real \<Rightarrow> real \<Rightarrow> error + real" where
  "py_div a b = (if b = 0 then Inl ZeroDivisionError else Inr (a / b))"

text \<open>
  \<open>round(x, 2)\<close>: the nearest multiple of 0.01, a tie going to the even one. (On floats
  the tie is decided on the binary value of \<open>x\<close>; here on the exact one.)
\<close>

definition py_round2 :: "real \<Rightarrow> real" where
  "py_round2 x =
     (let y = x * 100; f = \<lfloor>y\<rfloor>; d = y - of_int f
      in of_int (if d < 1 / 2 then f
                 else if 1 / 2 < d then f + 1
                 else if even f then f else f + 1) / 100)"

text \<open>Lines 94 to 101: the rows scored, and the rate computed from them.\<close>

definition signals_of :: "row list \<Rightarrow> int \<Rightarrow> (nat \<times> row) list" where
  "signals_of df lookback = tail lookback (dropna_signal df)"

definition win_rate :: "row list \<Rightarrow> int \<Rightarrow> error + real" where
  "win_rate df lookback =
     (let signals = signals_of df lookback;
          wins = count_wins df signals 0
      in if length signals \<noteq> 0 then
           (case py_div (real wins) (real (length signals)) of
              Inl e \<Rightarrow> Inl e
            | Inr q \<Rightarrow> Inr (py_round2 (q * 100)))
         else Inr 0)"

definition calculate_win_rate ::
  "exchange \<Rightarrow> ta \<Rightarrow> string \<Rightarrow> string \<Rightarrow> int \<Rightarrow> nat \<Rightarrow> (error + real) \<times> nat" where
  "calculate_win_rate ex lib smb itv lookback t =
     (case fetch_klines ex smb itv (lookback + 50) t of
        (Inl e, t') \<Rightarrow> (Inl e, t')
      | (Inr df, t') \<Rightarrow>
          (case generate_signals lib df of
             Inl e \<Rightarrow> (Inl e, t')
           | Inr rows \<Rightarrow> (win_rate rows lookback, t')))"

section \<open>\<open>analyze_trend\<close>\<close>

text \<open>The returned dict: \<open>{'signal': None}\<close>, or the five entries of a plan.\<close>

datatype plan =
  NoSignal
| Plan (direction: "signal option") (entry: real) (stop_loss: pyfloat)
       (take_profit: pyfloat) (momentum: cell)

text \<open>\<open>iloc[-1:]\<close>: the last row, or nothing.\<close>

definition iloc_last :: "'a list \<Rightarrow> 'a list" where
  "iloc_last xs = drop (length xs - 1) xs"

definition analyze_trend :: "ta \<Rightarrow> candle list \<Rightarrow> error + plan" where
  "analyze_trend lib df =
     (case generate_signals lib df of
        Inl e \<Rightarrow> Inl e
      | Inr rows \<Rightarrow>
          (case iloc_last (dropna_signal rows) of
             [] \<Rightarrow> Inr NoSignal
           | (idx, r) # _ \<Rightarrow>
               (let entry = close (bar r);
                    atr = ATR r;
                    direction = signal r;
                    k = (if direction = Some LONG then 1 else - 1)
                in case py_mul_int atr k of
                     Inl e \<Rightarrow> Inl e
                   | Inr a1 \<Rightarrow>
                       (case py_mul_int atr 2 of
                          Inl e \<Rightarrow> Inl e
                        | Inr a2 \<Rightarrow>
                            Inr (Plan direction entry
                                   (fsub (Num entry) a1)
                                   (fadd (Num entry) (fmul a2 (Num (of_int k))))
                                   (RSI r))))))"

section \<open>Auxiliary notions and sample data\<close>

text \<open>Two rows that agree on everything but the label.\<close>

definition same_cells :: "row \<Rightarrow> row \<Rightarrow> bool" where
  "same_cells a b \<longleftrightarrow>
     bar a = bar b \<and> EMA_fast a = EMA_fast b \<and> EMA_slow a = EMA_slow b \<and>
     RSI a = RSI b \<and> ATR a = ATR b"

text \<open>What the loop body computes at index \<open>j\<close> of a frame.\<close>

definition label_at :: "row list \<Rightarrow> nat \<Rightarrow> error + signal option" where
  "label_at df j = label (df ! (j - 1)) (df ! j)"

text \<open>An indicator value is defined when it is a number: neither NaN nor \<open>None\<close>.\<close>

fun defined :: "cell \<Rightarrow> bool" where
  "defined (Fl (Num x)) = True"
| "defined _ = False"

text \<open>
  Sample data: four flat bars closing at 10, 11, 12 and 13, and an indicator library
  that answers with fixed series. With \<open>sample_lib\<close> the fast average crosses the slow
  one upwards at bars 1 and 3 and downwards at bar 2, where the RSI of 20 blocks the
  label; the ATR series is left open.
\<close>

definition mk_candle :: "int \<Rightarrow> real \<Rightarrow> candle" where
  "mk_candle t p =
     \<lparr>open_time = t, open_price = p, high = p, low = p, close = p, volume = 1\<rparr>"

definition fixed_lib ::
  "series option \<Rightarrow> series option \<Rightarrow> series option \<Rightarrow> series option \<Rightarrow> ta" where
  "fixed_lib f s r a =
     \<lparr>ema = (\<lambda>xs n. if n = 10 then f else s), rsi = (\<lambda>xs n. r), atr = (\<lambda>h l c n. a)\<rparr>"

definition sample_df :: "candle list" where
  "sample_df = [mk_candle 0 10, mk_candle 1 11, mk_candle 2 12, mk_candle 3 13]"

definition sample_lib :: "series option \<Rightarrow> ta" where
  "sample_lib a =
     fixed_lib (Some [Num 1, Num 3, Num 1, Num 3]) (Some [Num 2, Num 2, Num 2, Num 2])
       (Some [Num 50, Num 50, Num 20, Num 50]) a"

definition sample_row :: "nat \<Rightarrow> real \<Rightarrow> real \<Rightarrow> cell \<Rightarrow> signal option \<Rightarrow> row" where
  "sample_row i f r a s =
     \<lparr>bar = mk_candle (int i) (10 + real i), EMA_fast = Fl (Num f), EMA_slow = Fl (Num 2),
      RSI = Fl (Num r), ATR = a, signal = s\<rparr>"

definition sample_rows :: "cell \<Rightarrow> cell \<Rightarrow> cell \<Rightarrow> cell \<Rightarrow> row list" where
  "sample_rows a0 a1 a2 a3 =
     [sample_row 0 1 50 a0 None, sample_row 1 3 50 a1 (Some LONG),
      sample_row 2 1 20 a2 None, sample_row 3 3 50 a3 (Some LONG)]"

text \<open>
  A library that, like \<open>pandas_ta\<close>, returns no series when the input is shorter than
  the indicator's period, and otherwise a series without a single defined value.
\<close>

definition guarded_lib :: ta where
  "guarded_lib =
     \<lparr>ema = (\<lambda>xs n. if length xs < n then None else Some (replicate (length xs) NaN)),
      rsi = (\<lambda>xs n. if length xs < n then None else Some (replicate (length xs) NaN)),
      atr = (\<lambda>h l c n. if length c < n then None else Some (replicate (length c) NaN))\<rparr>"

text \<open>A heap in which every reference holds the sample frame as fetched.\<close>

definition sample_heap :: heap where
  "sample_heap = (\<lambda>r. Candles sample_df)"

text \<open>An exchange whose first call fails and whose later calls answer with \<open>df\<close>.\<close>

definition flaky_exchange :: "candle list \<Rightarrow> exchange" where
  "flaky_exchange df = (\<lambda>t req. if t = 0 then None else Some df)"

section \<open>Properties of the labelling loop\<close>

lemma length_set_signal [simp]: "length (set_signal df i s) = length df"
  by (simp add: set_signal_def split: option.splits)

declare label_loop.simps [simp del]

lemma label_cong:
  "EMA_fast p' = EMA_fast p \<Longrightarrow> EMA_slow p' = EMA_slow p \<Longrightarrow>
   EMA_fast c' = EMA_fast c \<Longrightarrow> EMA_slow c' = EMA_slow c \<Longrightarrow> RSI c' = RSI c \<Longrightarrow>
   label p' c' = label p c"
  by (simp add: label_def split: sum.splits bool.splits)

lemma same_cells_refl [simp]: "same_cells a a"
  by (simp add: same_cells_def)

lemma same_cells_set_signal: "same_cells (set_signal df i s ! j) (df ! j)"
  by (cases "j = i"; cases "i < length df"; cases s)
     (simp_all add: set_signal_def same_cells_def list_update_beyond)

lemma label_set_signal:
  "label (set_signal df i s ! j) (set_signal df i s ! k) = label (df ! j) (df ! k)"
  using same_cells_set_signal [of df i s j] same_cells_set_signal [of df i s k]
  by (auto simp: same_cells_def intro: label_cong)

lemma signal_set_signal:
  "i < length df \<Longrightarrow> signal (set_signal df i s ! j) =
     (if j = i then (case s of None \<Rightarrow> signal (df ! i) | Some d \<Rightarrow> Some d)
      else signal (df ! j))"
  by (auto simp: set_signal_def split: option.splits)

lemma label_loop_length [simp]: "length (snd (label_loop i df)) = length df"
proof (induction i df rule: label_loop.induct)
  case (1 i df)
  show ?case
    using "1.IH" by (subst label_loop.simps) (auto split: sum.splits)
qed

text \<open>The loop writes nothing but labels.\<close>

lemma label_loop_cells: "same_cells (snd (label_loop i df) ! j) (df ! j)"
proof (induction i df rule: label_loop.induct)
  case (1 i df)
  show ?case
  proof (cases "i < length df")
    case False
    then show ?thesis by (subst label_loop.simps) simp
  next
    case True
    show ?thesis
    proof (cases "label (df ! (i - 1)) (df ! i)")
      case (Inl e)
      with True show ?thesis by (subst label_loop.simps) simp
    next
      case (Inr s)
      have "same_cells (snd (label_loop (Suc i) (set_signal df i s)) ! j) (set_signal df i s ! j)"
        using "1.IH" [OF True Inr] .
      moreover have "same_cells (set_signal df i s ! j) (df ! j)"
        by (rule same_cells_set_signal)
      ultimately have "same_cells (snd (label_loop (Suc i) (set_signal df i s)) ! j) (df ! j)"
        by (simp add: same_cells_def)
      with True Inr show ?thesis by (subst label_loop.simps) simp
    qed
  qed
qed

text \<open>
  When no comparison raises from index \<open>i\<close> on, the loop ends normally and every row from
  \<open>i\<close> on carries the label its body computes from the indicator columns.
\<close>

lemma label_loop_ok:
  "\<forall>j. i \<le> j \<and> j < length df \<longrightarrow> (\<exists>s. label_at df j = Inr s) \<Longrightarrow>
   fst (label_loop i df) = None \<and>
   (\<forall>j < length df. signal (snd (label_loop i df) ! j) =
      (if i \<le> j then (case label_at df j of Inr (Some d) \<Rightarrow> Some d | _ \<Rightarrow> signal (df ! j))
       else signal (df ! j)))"
proof (induction i df rule: label_loop.induct)
  case (1 i df)
  show ?case
  proof (cases "i < length df")
    case False
    then show ?thesis by (subst label_loop.simps, subst label_loop.simps) simp
  next
    case True
    from "1.prems" True obtain s where s: "label (df ! (i - 1)) (df ! i) = Inr s"
      by (auto simp: label_at_def)
    let ?df = "set_signal df i s"
    have at: "label_at ?df j = label_at df j" for j
      by (simp add: label_at_def label_set_signal)
    have "\<forall>j. Suc i \<le> j \<and> j < length ?df \<longrightarrow> (\<exists>s. label_at ?df j = Inr s)"
      using "1.prems" by (simp add: at)
    from "1.IH" [OF True s this]
    have ih: "fst (label_loop (Suc i) ?df) = None"
      "\<And>j. j < length df \<Longrightarrow> signal (snd (label_loop (Suc i) ?df) ! j) =
         (if Suc i \<le> j
          then (case label_at df j of Inr (Some d) \<Rightarrow> Some d | _ \<Rightarrow> signal (?df ! j))
          else signal (?df ! j))"
      by (simp_all add: at)
    have eq: "label_loop i df = label_loop (Suc i) ?df"
      using True s by (subst label_loop.simps) simp
    have "signal (snd (label_loop (Suc i) ?df) ! j) =
         (if i \<le> j then (case label_at df j of Inr (Some d) \<Rightarrow> Some d | _ \<Rightarrow> signal (df ! j))
          else signal (df ! j))" if j: "j < length df" for j
    proof -
      consider "j < i" | "j = i" | "Suc i \<le> j" by linarith
      then show ?thesis
      proof cases
        case 1
        then show ?thesis using ih(2) [OF j] True by (simp add: signal_set_signal)
      next
        case 2
        then show ?thesis using ih(2) [OF j] True s
          by (simp add: signal_set_signal label_at_def split: option.splits)
      next
        case 3
        then show ?thesis using ih(2) [OF j] True
          by (simp add: signal_set_signal split: option.splits sum.splits)
      qed
    qed
    then show ?thesis
      unfolding eq using ih(1) by simp
  qed
qed

section \<open>Properties of the scoring\<close>

lemma count_wins_filter: "count_wins df ss w = w + length (filter (is_win df) ss)"
  by (induction ss arbitrary: w) simp_all

lemma set_tail_subset: "set (tail n xs) \<subseteq> set xs"
  by (auto simp: tail_def dest: in_set_dropD)

lemma length_tail_le: "0 \<le> n \<Longrightarrow> int (length (tail n xs)) \<le> n"
  by (auto simp: tail_def)

lemma dropna_signal_mem:
  "(i, r) \<in> set (dropna_signal df) \<longleftrightarrow> i < length df \<and> r = df ! i \<and> signal r \<noteq> None"
proof -
  have "(i, r) \<in> set (zip [0..<length df] df) \<longleftrightarrow> i < length df \<and> r = df ! i"
    by (auto simp: in_set_conv_nth)
  then show ?thesis by (auto simp: dropna_signal_def)
qed

lemma signals_of_mem:
  "(i, r) \<in> set (signals_of df lookback) \<Longrightarrow> i < length df \<and> r = df ! i \<and> signal r \<noteq> None"
  using set_tail_subset [of lookback "dropna_signal df"]
  by (auto simp: signals_of_def dropna_signal_mem)

lemma is_win_iff:
  "i < length df \<Longrightarrow> is_win df (i, df ! i) \<longleftrightarrow>
     (signal (df ! i) = Some LONG \<and> Suc i < length df \<and>
        close (bar (df ! i)) < close (bar (df ! Suc i))) \<or>
     (signal (df ! i) = Some SHORT \<and> Suc i < length df \<and>
        close (bar (df ! Suc i)) < close (bar (df ! i)))"
  by (simp add: is_win_def next_price_def fgt_def)

text \<open>The rounding: a multiple of 0.01 at most half a step away.\<close>

lemma py_round2_cases:
  obtains k :: int where "py_round2 x = of_int k / 100"
    and "k = \<lfloor>x * 100\<rfloor> \<or> k = \<lfloor>x * 100\<rfloor> + 1 \<and> real_of_int \<lfloor>x * 100\<rfloor> < x * 100"
    and "\<bar>of_int k - x * 100\<bar> \<le> 1 / 2"
proof -
  define y where "y = x * 100"
  define f where "f = \<lfloor>y\<rfloor>"
  define k where "k = (if y - of_int f < 1 / 2 then f
                       else if 1 / 2 < y - of_int f then f + 1
                       else if even f then f else f + 1)"
  have f: "of_int f \<le> y" "y < of_int f + 1"
    by (simp_all add: f_def)
  have 1: "py_round2 x = of_int k / 100"
    by (simp add: py_round2_def Let_def k_def f_def y_def)
  have 2: "k = f \<or> k = f + 1 \<and> real_of_int f < y"
    using f by (auto simp: k_def)
  have 3: "\<bar>of_int k - y\<bar> \<le> 1 / 2"
    using f by (auto simp: k_def)
  show thesis
    using that [of k] 1 2 3 by (simp add: f_def y_def)
qed

lemma py_round2_near: "\<bar>py_round2 x - x\<bar> \<le> 1 / 200"
proof -
  obtain k :: int where k: "py_round2 x = of_int k / 100" "\<bar>of_int k - x * 100\<bar> \<le> 1 / 2"
    by (rule py_round2_cases)
  then show ?thesis by (simp add: abs_if field_simps split: if_splits)
qed

lemma py_round2_range:
  assumes "0 \<le> x" "x \<le> 100"
  shows "0 \<le> py_round2 x \<and> py_round2 x \<le> 100"
proof -
  obtain k :: int where k: "py_round2 x = of_int k / 100"
    "k = \<lfloor>x * 100\<rfloor> \<or> k = \<lfloor>x * 100\<rfloor> + 1 \<and> real_of_int \<lfloor>x * 100\<rfloor> < x * 100"
    by (rule py_round2_cases)
  have f0: "0 \<le> \<lfloor>x * 100\<rfloor>" using assms by simp
  have f1: "\<lfloor>x * 100\<rfloor> \<le> 10000" using assms by (simp add: floor_le_iff)
  have "0 \<le> k \<and> k \<le> 10000"
  proof (cases "k = \<lfloor>x * 100\<rfloor>")
    case True
    then show ?thesis using f0 f1 by simp
  next
    case False
    with k(2) have k': "k = \<lfloor>x * 100\<rfloor> + 1" "real_of_int \<lfloor>x * 100\<rfloor> < x * 100"
      by simp_all
    have "real_of_int \<lfloor>x * 100\<rfloor> < 10000" using k'(2) assms by linarith
    then have "\<lfloor>x * 100\<rfloor> < 10000" by linarith
    then show ?thesis using f0 k'(1) by simp
  qed
  then show ?thesis by (simp add: k(1))
qed

lemma win_rate_eq:
  "win_rate df lookback =
     (if signals_of df lookback = [] then Inr 0
      else Inr (py_round2 (real (length (filter (is_win df) (signals_of df lookback))) /
                            real (length (signals_of df lookback)) * 100)))"
  by (simp add: win_rate_def Let_def py_div_def count_wins_filter)

section \<open>The sample data, evaluated\<close>

lemma upt4: "[0..<4] = [0, 1, 2, 3]"
  by (simp add: upt_rec)

lemma sample_indicators:
  "indicators (sample_lib (Some [a0, a1, a2, a3])) sample_df =
     [sample_row 0 1 50 (Fl a0) None, sample_row 1 3 50 (Fl a1) None,
      sample_row 2 1 20 (Fl a2) None, sample_row 3 3 50 (Fl a3) None]"
  by (simp add: indicators_def sample_lib_def fixed_lib_def sample_df_def assign_column_def
      sample_row_def upt4 Let_def)

lemma sample_label_loop:
  "label_loop 1 (indicators (sample_lib (Some [a0, a1, a2, a3])) sample_df) =
     (None, sample_rows (Fl a0) (Fl a1) (Fl a2) (Fl a3))"
  unfolding sample_indicators
  by (simp add: label_loop.simps label_def py_and_def py_gt_def set_signal_def sample_row_def
      sample_rows_def)

lemma sample_signals:
  "generate_signals (sample_lib (Some [a0, a1, a2, a3])) sample_df =
     Inr (sample_rows (Fl a0) (Fl a1) (Fl a2) (Fl a3))"
  unfolding generate_signals_def sample_label_loop by simp

lemma sample_dropna:
  "dropna_signal (sample_rows a0 a1 a2 a3) =
     [(1, sample_row 1 3 50 a1 (Some LONG)), (3, sample_row 3 3 50 a3 (Some LONG))]"
  by (simp add: dropna_signal_def sample_rows_def sample_row_def upt4)

lemma sample_signals_of:
  "signals_of (sample_rows a0 a1 a2 a3) 100 =
     [(1, sample_row 1 3 50 a1 (Some LONG)), (3, sample_row 3 3 50 a3 (Some LONG))]"
  by (simp add: signals_of_def sample_dropna tail_def)

lemma sample_is_win:
  "is_win (sample_rows a0 a1 a2 a3) (Suc 0, sample_row (Suc 0) 3 50 a1 (Some LONG))"
  "\<not> is_win (sample_rows a0 a1 a2 a3) (3, sample_row 3 3 50 a3 (Some LONG))"
  by (simp_all add: is_win_def next_price_def fgt_def sample_rows_def sample_row_def mk_candle_def)

lemma py_round2_50: "py_round2 50 = 50"
  by (simp add: py_round2_def Let_def)

lemma sample_win_rate: "win_rate (sample_rows a0 a1 a2 a3) 100 = Inr 50"
  by (simp add: win_rate_eq sample_signals_of sample_is_win py_round2_50)

section \<open>Properties of \<open>generate_signals\<close>\<close>

lemma length_assign_column [simp]: "length (assign_column n r) = n"
  by (simp add: assign_column_def split: option.splits)

lemma assign_column_Some:
  "i < n \<Longrightarrow> assign_column n (Some s) ! i = Fl (if i < length s then s ! i else NaN)"
  by (simp add: assign_column_def)

lemma assign_column_None: "i < n \<Longrightarrow> assign_column n None ! i = PyNone"
  by (simp add: assign_column_def)

text \<open>A column with one float cell is a series: all its cells are floats.\<close>

lemma assign_column_float:
  "i < n \<Longrightarrow> assign_column n r ! i = Fl x \<Longrightarrow> j < n \<Longrightarrow> \<exists>y. assign_column n r ! j = Fl y"
  by (cases r) (simp_all add: assign_column_def)

lemma length_indicators [simp]: "length (indicators lib df) = length df"
  by (simp add: indicators_def Let_def)

lemma indicators_nth:
  "i < length df \<Longrightarrow> indicators lib df ! i =
     \<lparr>bar = df ! i,
      EMA_fast = assign_column (length df) (ema lib (map close df) 10) ! i,
      EMA_slow = assign_column (length df) (ema lib (map close df) 30) ! i,
      RSI = assign_column (length df) (rsi lib (map close df) 14) ! i,
      ATR = assign_column (length df) (atr lib (map high df) (map low df) (map close df) 14) ! i,
      signal = None\<rparr>"
  by (simp add: indicators_def Let_def)

lemma label_floats:
  "EMA_fast p = Fl pf \<Longrightarrow> EMA_slow p = Fl ps \<Longrightarrow>
   EMA_fast c = Fl cf \<Longrightarrow> EMA_slow c = Fl cs \<Longrightarrow> RSI c = Fl r \<Longrightarrow>
   label p c = Inr (if flt pf ps \<and> flt cs cf \<and> flt r (Num 70) then Some LONG
                    else if flt ps pf \<and> flt cf cs \<and> flt (Num 30) r then Some SHORT
                    else None)"
  by (simp add: label_def py_and_def py_gt_def)

lemma generate_signals_short:
  "length df \<le> 1 \<Longrightarrow> generate_signals lib df = Inr (indicators lib df)"
  by (simp add: generate_signals_def label_loop.simps)

lemma generate_signals_ok:
  assumes "\<forall>j. 1 \<le> j \<and> j < length df \<longrightarrow> (\<exists>s. label_at (indicators lib df) j = Inr s)"
  shows "\<exists>rows. generate_signals lib df = Inr rows \<and> length rows = length df \<and>
     (\<forall>j<length df. same_cells (rows ! j) (indicators lib df ! j) \<and>
        signal (rows ! j) =
          (if 1 \<le> j then (case label_at (indicators lib df) j of
                              Inr (Some d) \<Rightarrow> Some d | _ \<Rightarrow> None)
           else None))"
proof -
  let ?I = "indicators lib df"
  let ?rows = "snd (label_loop 1 ?I)"
  have ok: "fst (label_loop 1 ?I) = None \<and>
   (\<forall>j < length ?I. signal (?rows ! j) =
      (if 1 \<le> j then (case label_at ?I j of Inr (Some d) \<Rightarrow> Some d | _ \<Rightarrow> signal (?I ! j))
       else signal (?I ! j)))"
    by (rule label_loop_ok) (use assms in simp)
  have gs: "generate_signals lib df = Inr ?rows"
  proof (cases "label_loop 1 ?I")
    case (Pair err rows)
    with ok have "err = None" by simp
    with Pair show ?thesis by (simp add: generate_signals_def)
  qed
  have len: "length ?rows = length df"
    by simp
  have cells: "same_cells (?rows ! j) (?I ! j)" for j
    by (rule label_loop_cells)
  have sig0: "signal (?I ! j) = None" if "j < length df" for j
    using that by (simp add: indicators_nth)
  have sig: "signal (?rows ! j) =
          (if 1 \<le> j then (case label_at ?I j of Inr (Some d) \<Rightarrow> Some d | _ \<Rightarrow> None)
           else None)" if "j < length df" for j
    using ok that sig0 [OF that] by (auto split: sum.splits option.splits)
  from gs len cells sig show ?thesis by blast
qed

lemma flt_Num: "flt a b \<Longrightarrow> (\<exists>x. a = Num x) \<and> (\<exists>y. b = Num y)"
  by (cases a; cases b) simp_all

lemma same_cells_row: "same_cells a b \<Longrightarrow> a = b\<lparr>signal := signal a\<rparr>"
  by (cases a; cases b) (simp add: same_cells_def)

text \<open>With series in the three columns the loop compares, no comparison raises.\<close>

lemma label_at_series:
  assumes "ema lib (map close df) 10 = Some f" "ema lib (map close df) 30 = Some s"
    "rsi lib (map close df) 14 = Some r" "1 \<le> j" "j < length df"
  shows "\<exists>pf ps cf cs cr.
     EMA_fast (indicators lib df ! (j - 1)) = Fl pf \<and> EMA_slow (indicators lib df ! (j - 1)) = Fl ps \<and>
     EMA_fast (indicators lib df ! j) = Fl cf \<and> EMA_slow (indicators lib df ! j) = Fl cs \<and>
     RSI (indicators lib df ! j) = Fl cr \<and>
     label_at (indicators lib df) j =
       Inr (if flt pf ps \<and> flt cs cf \<and> flt cr (Num 70) then Some LONG
            else if flt ps pf \<and> flt cf cs \<and> flt (Num 30) cr then Some SHORT
            else None)"
proof -
  let ?I = "indicators lib df"
  have j: "j < length df" and j1: "j - 1 < length df" using assms(5) by simp_all
  define pf where "pf = (if j - 1 < length f then f ! (j - 1) else NaN)"
  define ps where "ps = (if j - 1 < length s then s ! (j - 1) else NaN)"
  define cf where "cf = (if j < length f then f ! j else NaN)"
  define cs where "cs = (if j < length s then s ! j else NaN)"
  define cr where "cr = (if j < length r then r ! j else NaN)"
  have 1: "EMA_fast (?I ! (j - 1)) = Fl pf"
    unfolding indicators_nth [OF j1] assms(1) pf_def using j1 by (simp add: assign_column_Some)
  have 2: "EMA_slow (?I ! (j - 1)) = Fl ps"
    unfolding indicators_nth [OF j1] assms(2) ps_def using j1 by (simp add: assign_column_Some)
  have 3: "EMA_fast (?I ! j) = Fl cf"
    unfolding indicators_nth [OF j] assms(1) cf_def using j by (simp add: assign_column_Some)
  have 4: "EMA_slow (?I ! j) = Fl cs"
    unfolding indicators_nth [OF j] assms(2) cs_def using j by (simp add: assign_column_Some)
  have 5: "RSI (?I ! j) = Fl cr"
    unfolding indicators_nth [OF j] assms(3) cr_def using j by (simp add: assign_column_Some)
  have "label_at ?I j =
       Inr (if flt pf ps \<and> flt cs cf \<and> flt cr (Num 70) then Some LONG
            else if flt ps pf \<and> flt cf cs \<and> flt (Num 30) cr then Some SHORT
            else None)"
    unfolding label_at_def by (rule label_floats [OF 1 2 3 4 5])
  with 1 2 3 4 5 show ?thesis by blast
qed

text \<open>Without a series for the slow average, the first comparison of the loop raises.\<close>

lemma generate_signals_no_series:
  assumes "ema lib (map close df) 30 = None" "2 \<le> length df"
  shows "generate_signals lib df = Inl TypeError"
proof -
  have 0: "0 < length df" and 1: "1 < length df" using assms(2) by linarith+
  have "EMA_slow (indicators lib df ! 0) = PyNone"
    using 0 by (simp add: indicators_nth assms(1) assign_column_None)
  then have "py_lt (EMA_fast (indicators lib df ! 0)) (EMA_slow (indicators lib df ! 0)) = Inl TypeError"
    by (cases "EMA_fast (indicators lib df ! 0)") simp_all
  then have "label (indicators lib df ! 0) (indicators lib df ! 1) = Inl TypeError"
    by (simp add: label_def py_and_def)
  then have "label_loop 1 (indicators lib df) = (Some TypeError, indicators lib df)"
    using 1 by (subst label_loop.simps) simp
  then show ?thesis by (simp add: generate_signals_def)
qed

lemma defined_Fl: "defined (Fl x) \<longleftrightarrow> x \<noteq> NaN"
  by (cases x) simp_all

section \<open>The labelling rule\<close>

text \<open>
  Claim C1. Take a bar \<open>i \<ge> 1\<close> at which the fast and slow averages of bars \<open>i - 1\<close> and
  \<open>i\<close> and the RSI of bar \<open>i\<close> are defined. Then \<open>generate_signals\<close> returns a frame, and in
  it bar \<open>i\<close> is labelled LONG exactly when the fast average was below the slow one at
  \<open>i - 1\<close>, is above it at \<open>i\<close>, and the RSI at \<open>i\<close> is below 70; SHORT exactly when the fast
  average was above, is below, and the RSI is above 30; and carries no label otherwise,
  in particular when the two averages are equal at either bar. Bar 0 never carries a
  label, and no bar carries both.
\<close>

theorem generate_signals_crossover:
  assumes "1 \<le> i" "i < length df"
    and "EMA_fast (indicators lib df ! (i - 1)) = Fl (Num pf)"
    and "EMA_slow (indicators lib df ! (i - 1)) = Fl (Num ps)"
    and "EMA_fast (indicators lib df ! i) = Fl (Num cf)"
    and "EMA_slow (indicators lib df ! i) = Fl (Num cs)"
    and "RSI (indicators lib df ! i) = Fl (Num r)"
  shows "\<exists>rows. generate_signals lib df = Inr rows \<and> length rows = length df \<and>
     (signal (rows ! i) = Some LONG \<longleftrightarrow> pf < ps \<and> cs < cf \<and> r < 70) \<and>
     (signal (rows ! i) = Some SHORT \<longleftrightarrow> ps < pf \<and> cf < cs \<and> 30 < r) \<and>
     (signal (rows ! i) = None \<longleftrightarrow>
        \<not> (pf < ps \<and> cs < cf \<and> r < 70) \<and> \<not> (ps < pf \<and> cf < cs \<and> 30 < r)) \<and>
     (pf = ps \<or> cf = cs \<longrightarrow> signal (rows ! i) = None) \<and>
     signal (rows ! 0) = None \<and>
     (\<forall>j<length df. \<not> (signal (rows ! j) = Some LONG \<and> signal (rows ! j) = Some SHORT))"
proof -
  let ?I = "indicators lib df"
  let ?n = "length df"
  obtain f where f: "ema lib (map close df) 10 = Some f"
    using assms(2,5) by (cases "ema lib (map close df) 10") (simp_all add: indicators_nth assign_column_None)
  obtain s where s: "ema lib (map close df) 30 = Some s"
    using assms(2,6) by (cases "ema lib (map close df) 30") (simp_all add: indicators_nth assign_column_None)
  obtain q where q: "rsi lib (map close df) 14 = Some q"
    using assms(2,7) by (cases "rsi lib (map close df) 14") (simp_all add: indicators_nth assign_column_None)
  have "\<forall>j. 1 \<le> j \<and> j < ?n \<longrightarrow> (\<exists>s. label_at ?I j = Inr s)"
    using label_at_series [OF f s q] by blast
  from generate_signals_ok [OF this] obtain rows where
    rows: "generate_signals lib df = Inr rows" "length rows = ?n"
    and sig: "\<And>j. j < ?n \<Longrightarrow> signal (rows ! j) =
          (if 1 \<le> j then (case label_at ?I j of Inr (Some d) \<Rightarrow> Some d | _ \<Rightarrow> None) else None)"
    by blast
  have "label_at ?I i =
       Inr (if pf < ps \<and> cs < cf \<and> r < 70 then Some LONG
            else if ps < pf \<and> cf < cs \<and> 30 < r then Some SHORT
            else None)"
    unfolding label_at_def using label_floats [OF assms(3-7)] by simp
  with sig [OF assms(2)] assms(1)
  have i: "signal (rows ! i) =
       (if pf < ps \<and> cs < cf \<and> r < 70 then Some LONG
            else if ps < pf \<and> cf < cs \<and> 30 < r then Some SHORT
            else None)"
    by simp
  have "0 < length df" using assms(2) by linarith
  then have 0: "signal (rows ! 0) = None"
    using sig [of 0] by simp
  show ?thesis
    using rows i 0 by (intro exI [of _ rows]) auto
qed

text \<open>Claim C1 on the sample data: bar 1 is an upward crossing with an RSI of 50.\<close>

theorem generate_signals_crossover_witness:
  "(1::nat) \<le> 1 \<and> 1 < length sample_df \<and>
   EMA_fast (indicators (sample_lib (Some [Num 1, Num 1, Num 1, Num 1])) sample_df ! (1 - 1)) = Fl (Num 1) \<and>
   EMA_slow (indicators (sample_lib (Some [Num 1, Num 1, Num 1, Num 1])) sample_df ! (1 - 1)) = Fl (Num 2) \<and>
   EMA_fast (indicators (sample_lib (Some [Num 1, Num 1, Num 1, Num 1])) sample_df ! 1) = Fl (Num 3) \<and>
   EMA_slow (indicators (sample_lib (Some [Num 1, Num 1, Num 1, Num 1])) sample_df ! 1) = Fl (Num 2) \<and>
   RSI (indicators (sample_lib (Some [Num 1, Num 1, Num 1, Num 1])) sample_df ! 1) = Fl (Num 50) \<and>
   (\<exists>rows. generate_signals (sample_lib (Some [Num 1, Num 1, Num 1, Num 1])) sample_df = Inr rows \<and>
      signal (rows ! 1) = Some LONG \<and> signal (rows ! 0) = None)"
proof -
  let ?I = "indicators (sample_lib (Some [Num 1, Num 1, Num 1, Num 1])) sample_df"
  have 1: "(1::nat) \<le> 1" by simp
  have 2: "1 < length sample_df" by (simp add: sample_df_def)
  have 3: "EMA_fast (?I ! (1 - 1)) = Fl (Num 1)" by (simp add: sample_indicators sample_row_def)
  have 4: "EMA_slow (?I ! (1 - 1)) = Fl (Num 2)" by (simp add: sample_indicators sample_row_def)
  have 5: "EMA_fast (?I ! 1) = Fl (Num 3)" by (simp add: sample_indicators sample_row_def)
  have 6: "EMA_slow (?I ! 1) = Fl (Num 2)" by (simp add: sample_indicators sample_row_def)
  have 7: "RSI (?I ! 1) = Fl (Num 50)" by (simp add: sample_indicators sample_row_def)
  from generate_signals_crossover [OF 1 2 3 4 5 6 7]
  have "\<exists>rows. generate_signals (sample_lib (Some [Num 1, Num 1, Num 1, Num 1])) sample_df = Inr rows \<and>
      signal (rows ! 1) = Some LONG \<and> signal (rows ! 0) = None"
    by auto
  with 1 2 3 4 5 6 7 show ?thesis by blast
qed

section \<open>Frames too short for the indicators\<close>

text \<open>
  Claim C6 says that \<open>generate_signals\<close> never raises on a frame shorter than the
  indicator periods. The indicator library returns no series for such a frame
  (\<open>guarded_lib\<close>), the columns are then \<open>None\<close>, and on a frame of two bars the first
  comparison of the loop, at index 1, raises \<open>TypeError\<close>.
\<close>

theorem short_frame_raises:
  "length [mk_candle 0 10, mk_candle 1 11] < 30 \<and>
   generate_signals guarded_lib [mk_candle 0 10, mk_candle 1 11] = Inl TypeError"
  by (simp add: generate_signals_no_series guarded_lib_def)

text \<open>
  Claim C6, amended. On a frame of at most one bar, and on any frame for which the
  library returns series for the two averages and the RSI, \<open>generate_signals\<close> returns a
  frame of the same length and raises nothing. Each row holds the indicator values as
  assigned, so an undefined value stays undefined and is never replaced by zero, and a
  bar is left without a label whenever one of the five values the rule reads for it is
  undefined.
\<close>

theorem generate_signals_undefined_values:
  assumes "length df \<le> 1 \<or>
     (ema lib (map close df) 10 \<noteq> None \<and> ema lib (map close df) 30 \<noteq> None \<and>
      rsi lib (map close df) 14 \<noteq> None)"
  shows "\<exists>rows. generate_signals lib df = Inr rows \<and> length rows = length df \<and>
     (\<forall>i<length df.
        rows ! i = (indicators lib df ! i)\<lparr>signal := signal (rows ! i)\<rparr> \<and>
        (\<not> defined (EMA_fast (rows ! i)) \<or> \<not> defined (EMA_slow (rows ! i)) \<or>
         \<not> defined (RSI (rows ! i)) \<or> \<not> defined (EMA_fast (rows ! (i - 1))) \<or>
         \<not> defined (EMA_slow (rows ! (i - 1))) \<longrightarrow> signal (rows ! i) = None))"
proof (cases "length df \<le> 1")
  case True
  have "signal (indicators lib df ! i) = None" if "i < length df" for i
    using that by (simp add: indicators_nth)
  then show ?thesis
    using generate_signals_short [OF True, of lib] by simp
next
  case False
  let ?I = "indicators lib df"
  from False assms obtain f s r where
    series: "ema lib (map close df) 10 = Some f" "ema lib (map close df) 30 = Some s"
      "rsi lib (map close df) 14 = Some r"
    by auto
  have "\<forall>j. 1 \<le> j \<and> j < length df \<longrightarrow> (\<exists>s. label_at ?I j = Inr s)"
    using label_at_series [OF series] by blast
  from generate_signals_ok [OF this] obtain rows where
    rows: "generate_signals lib df = Inr rows" "length rows = length df"
    and cells: "\<And>j. j < length df \<Longrightarrow> same_cells (rows ! j) (?I ! j)"
    and sig: "\<And>j. j < length df \<Longrightarrow> signal (rows ! j) =
          (if 1 \<le> j then (case label_at ?I j of Inr (Some d) \<Rightarrow> Some d | _ \<Rightarrow> None) else None)"
    by blast
  have "rows ! i = (?I ! i)\<lparr>signal := signal (rows ! i)\<rparr> \<and>
        (\<not> defined (EMA_fast (rows ! i)) \<or> \<not> defined (EMA_slow (rows ! i)) \<or>
         \<not> defined (RSI (rows ! i)) \<or> \<not> defined (EMA_fast (rows ! (i - 1))) \<or>
         \<not> defined (EMA_slow (rows ! (i - 1))) \<longrightarrow> signal (rows ! i) = None)"
    if i: "i < length df" for i
  proof (cases "1 \<le> i")
    case False
    with sig [OF i] have "signal (rows ! i) = None" by simp
    with same_cells_row [OF cells [OF i]] show ?thesis by blast
  next
    case True
    have i1: "i - 1 < length df" using i by simp
    from label_at_series [OF series True i] obtain pf ps cf cs cr where
      c: "EMA_fast (?I ! (i - 1)) = Fl pf" "EMA_slow (?I ! (i - 1)) = Fl ps"
         "EMA_fast (?I ! i) = Fl cf" "EMA_slow (?I ! i) = Fl cs" "RSI (?I ! i) = Fl cr"
      and l: "label_at ?I i =
       Inr (if flt pf ps \<and> flt cs cf \<and> flt cr (Num 70) then Some LONG
            else if flt ps pf \<and> flt cf cs \<and> flt (Num 30) cr then Some SHORT
            else None)"
      by blast
    have r: "EMA_fast (rows ! (i - 1)) = Fl pf" "EMA_slow (rows ! (i - 1)) = Fl ps"
         "EMA_fast (rows ! i) = Fl cf" "EMA_slow (rows ! i) = Fl cs" "RSI (rows ! i) = Fl cr"
      using cells [OF i] cells [OF i1] c by (simp_all add: same_cells_def)
    have s: "signal (rows ! i) =
       (if flt pf ps \<and> flt cs cf \<and> flt cr (Num 70) then Some LONG
            else if flt ps pf \<and> flt cf cs \<and> flt (Num 30) cr then Some SHORT
            else None)"
      using sig [OF i] True l by simp
    have "signal (rows ! i) = None"
      if "pf = NaN \<or> ps = NaN \<or> cf = NaN \<or> cs = NaN \<or> cr = NaN"
      using that unfolding s by (auto dest: flt_Num)
    then have "\<not> defined (EMA_fast (rows ! i)) \<or> \<not> defined (EMA_slow (rows ! i)) \<or>
         \<not> defined (RSI (rows ! i)) \<or> \<not> defined (EMA_fast (rows ! (i - 1))) \<or>
         \<not> defined (EMA_slow (rows ! (i - 1))) \<longrightarrow> signal (rows ! i) = None"
      unfolding r defined_Fl by blast
    with same_cells_row [OF cells [OF i]] show ?thesis by blast
  qed
  with rows show ?thesis by blast
qed

text \<open>
  Claim C6, amended, on two bars with series that hold NaN: the frame is returned, the
  NaN values are still there and neither bar is labelled.
\<close>

theorem generate_signals_undefined_values_witness:
  "(length [mk_candle 0 10, mk_candle 1 11] \<le> 1 \<or>
     (ema (fixed_lib (Some [Num 1, NaN]) (Some [NaN, Num 2]) (Some [Num 50, Num 50]) None)
        (map close [mk_candle 0 10, mk_candle 1 11]) 10 \<noteq> None \<and>
      ema (fixed_lib (Some [Num 1, NaN]) (Some [NaN, Num 2]) (Some [Num 50, Num 50]) None)
        (map close [mk_candle 0 10, mk_candle 1 11]) 30 \<noteq> None \<and>
      rsi (fixed_lib (Some [Num 1, NaN]) (Some [NaN, Num 2]) (Some [Num 50, Num 50]) None)
        (map close [mk_candle 0 10, mk_candle 1 11]) 14 \<noteq> None)) \<and>
   (\<exists>rows. generate_signals
        (fixed_lib (Some [Num 1, NaN]) (Some [NaN, Num 2]) (Some [Num 50, Num 50]) None)
        [mk_candle 0 10, mk_candle 1 11] = Inr rows \<and>
      length rows = 2 \<and> EMA_slow (rows ! 0) = Fl NaN \<and> EMA_fast (rows ! 1) = Fl NaN \<and>
      signal (rows ! 0) = None \<and> signal (rows ! 1) = None)"
proof -
  let ?lib = "fixed_lib (Some [Num 1, NaN]) (Some [NaN, Num 2]) (Some [Num 50, Num 50]) None"
  let ?df = "[mk_candle 0 10, mk_candle 1 11]"
  have h: "length ?df \<le> 1 \<or>
     (ema ?lib (map close ?df) 10 \<noteq> None \<and> ema ?lib (map close ?df) 30 \<noteq> None \<and>
      rsi ?lib (map close ?df) 14 \<noteq> None)"
    by (simp add: fixed_lib_def)
  from generate_signals_undefined_values [OF h] obtain rows where
    rows: "generate_signals ?lib ?df = Inr rows" "length rows = length ?df"
    and r: "\<And>i. i < length ?df \<Longrightarrow>
        rows ! i = (indicators ?lib ?df ! i)\<lparr>signal := signal (rows ! i)\<rparr> \<and>
        (\<not> defined (EMA_fast (rows ! i)) \<or> \<not> defined (EMA_slow (rows ! i)) \<or>
         \<not> defined (RSI (rows ! i)) \<or> \<not> defined (EMA_fast (rows ! (i - 1))) \<or>
         \<not> defined (EMA_slow (rows ! (i - 1))) \<longrightarrow> signal (rows ! i) = None)"
    by blast
  have i0: "EMA_slow (indicators ?lib ?df ! 0) = Fl NaN"
    by (simp add: indicators_nth fixed_lib_def assign_column_Some)
  have i1: "EMA_fast (indicators ?lib ?df ! 1) = Fl NaN"
    using indicators_nth [of "Suc 0" ?df ?lib]
    by simp (simp add: fixed_lib_def assign_column_Some)
  have r0: "rows ! 0 = (indicators ?lib ?df ! 0)\<lparr>signal := signal (rows ! 0)\<rparr>"
    using r [of 0] by simp
  have r1: "rows ! 1 = (indicators ?lib ?df ! 1)\<lparr>signal := signal (rows ! 1)\<rparr>"
    using r [of 1] by simp
  have e0: "EMA_slow (rows ! 0) = Fl NaN"
    using i0 by (subst r0) simp
  have e1: "EMA_fast (rows ! 1) = Fl NaN"
    using i1 by (subst r1) simp
  have s0: "signal (rows ! 0) = None" using r [of 0] e0 by simp
  have s1: "signal (rows ! 1) = None" using r [of 1] e1 by simp
  from h rows e0 e1 s0 s1 show ?thesis by simp
qed

section \<open>The win rate\<close>

text \<open>
  Claim C2. For every frame and lookback the win-rate computation returns a value and
  raises nothing. A scored LONG signal at bar \<open>i\<close> is a win exactly when the next bar exists
  and closes above bar \<open>i\<close>, a scored SHORT signal exactly when it closes below. The value
  is \<open>100 * wins / sample_size\<close> rounded to two decimals (a multiple of 0.01 at most 0.005
  away), it is 0 for an empty sample, and it always lies between 0 and 100.
\<close>

theorem win_rate_rounded_ratio:
  "\<exists>w wins.
     win_rate df lookback = Inr w \<and>
     wins = length (filter
       (\<lambda>(i, r). (signal r = Some LONG \<and> Suc i < length df \<and>
                     close (bar (df ! i)) < close (bar (df ! Suc i))) \<or>
                  (signal r = Some SHORT \<and> Suc i < length df \<and>
                     close (bar (df ! Suc i)) < close (bar (df ! i))))
       (signals_of df lookback)) \<and>
     0 \<le> w \<and> w \<le> 100 \<and>
     (signals_of df lookback = [] \<longrightarrow> w = 0) \<and>
     (signals_of df lookback \<noteq> [] \<longrightarrow>
        w = py_round2 (100 * real wins / real (length (signals_of df lookback))) \<and>
        \<bar>w - 100 * real wins / real (length (signals_of df lookback))\<bar> \<le> 1 / 200 \<and>
        (\<exists>k::int. w = of_int k / 100))"
proof -
  let ?S = "signals_of df lookback"
  let ?P = "\<lambda>(i, r). (signal r = Some LONG \<and> Suc i < length df \<and>
                     close (bar (df ! i)) < close (bar (df ! Suc i))) \<or>
                  (signal r = Some SHORT \<and> Suc i < length df \<and>
                     close (bar (df ! Suc i)) < close (bar (df ! i)))"
  have "is_win df s = ?P s" if "s \<in> set ?S" for s
  proof -
    obtain i r where s: "s = (i, r)" by (cases s)
    with that signals_of_mem [of i r df lookback] have "i < length df" "r = df ! i" by simp_all
    then show ?thesis using is_win_iff [of i df] by (simp add: s)
  qed
  then have wins: "filter (is_win df) ?S = filter ?P ?S"
    by (intro filter_cong) simp_all
  let ?q = "real (length (filter ?P ?S)) / real (length ?S) * 100"
  show ?thesis
  proof (cases "?S = []")
    case True
    then show ?thesis by (simp add: win_rate_eq)
  next
    case False
    have le: "length (filter ?P ?S) \<le> length ?S" by (rule length_filter_le)
    have pos: "0 < real (length ?S)" using False by simp
    have "0 \<le> ?q" by simp
    moreover have "?q \<le> 100"
      using le pos by (simp add: field_simps)
    ultimately have range: "0 \<le> py_round2 ?q \<and> py_round2 ?q \<le> 100"
      by (rule py_round2_range)
    have w: "win_rate df lookback = Inr (py_round2 ?q)"
      using False by (simp add: win_rate_eq wins)
    have near: "\<bar>py_round2 ?q - ?q\<bar> \<le> 1 / 200"
      by (rule py_round2_near)
    obtain k :: int where k: "py_round2 ?q = of_int k / 100"
      by (rule py_round2_cases)
    have eq: "100 * real (length (filter ?P ?S)) / real (length ?S) = ?q" by simp
    show ?thesis
    proof (rule exI [of _ "py_round2 ?q"], rule exI [of _ "length (filter ?P ?S)"],
        intro conjI impI)
      show "win_rate df lookback = Inr (py_round2 ?q)" by (rule w)
      show "0 \<le> py_round2 ?q" "py_round2 ?q \<le> 100" using range by simp_all
      show "py_round2 ?q = 0" if "?S = []" using that False by simp
      show "py_round2 ?q = py_round2 (100 * real (length (filter ?P ?S)) / real (length ?S))"
        by (simp only: eq)
      show "\<bar>py_round2 ?q - 100 * real (length (filter ?P ?S)) / real (length ?S)\<bar> \<le> 1 / 200"
        using near by (simp only: eq)
      show "\<exists>k::int. py_round2 ?q = of_int k / 100" using k by blast
    qed simp
  qed
qed

text \<open>Claim C2 on the sample frame: two scored signals, one win, a rate of 50.\<close>

theorem win_rate_rounded_ratio_witness:
  "signals_of (sample_rows PyNone PyNone PyNone PyNone) 100 \<noteq> [] \<and>
   win_rate (sample_rows PyNone PyNone PyNone PyNone) 100 = Inr 50 \<and>
   py_round2 (100 * real (Suc 0) / real (length (signals_of (sample_rows PyNone PyNone PyNone PyNone) 100))) = 50"
  using win_rate_rounded_ratio [of "sample_rows PyNone PyNone PyNone PyNone" 100]
  by (simp add: sample_signals_of sample_win_rate py_round2_50)

section \<open>A signal on the last bar\<close>

text \<open>
  Claim C3 says that a scored signal on the last bar is left out of both the wins and the
  sample size. On the sample frame of four bars the labelled rows are bars 1 and 3; both
  are scored, bar 3 being the last one, and the rate is 1 of 2, that is 50, where leaving
  bar 3 out of the sample would give 1 of 1, that is 100.
\<close>

theorem last_bar_signal_counted:
  "length (sample_rows PyNone PyNone PyNone PyNone) = 4 \<and>
   signals_of (sample_rows PyNone PyNone PyNone PyNone) 100 =
     [(1, sample_rows PyNone PyNone PyNone PyNone ! 1),
      (3, sample_rows PyNone PyNone PyNone PyNone ! 3)] \<and>
   win_rate (sample_rows PyNone PyNone PyNone PyNone) 100 = Inr 50"
  by (simp add: sample_signals_of sample_win_rate) (simp add: sample_rows_def)

text \<open>
  Claim C3, amended. A scored signal on the last bar is never counted as a win, since its
  next price is NaN and both comparisons fail; it stays in the sample, whose size is the
  number of all selected signals.
\<close>

theorem last_bar_signal_scored_as_loss:
  "(\<forall>s \<in> set (signals_of df lookback). Suc (fst s) = length df \<longrightarrow> \<not> is_win df s) \<and>
   win_rate df lookback =
     (if signals_of df lookback = [] then Inr 0
      else Inr (py_round2 (real (length (filter (is_win df) (signals_of df lookback))) /
                            real (length (signals_of df lookback)) * 100)))"
proof -
  have "\<not> is_win df s" if "Suc (fst s) = length df" for s
  proof -
    obtain i r where "s = (i, r)" by (cases s)
    with that show ?thesis by (simp add: is_win_def next_price_def fgt_def)
  qed
  then show ?thesis by (simp add: win_rate_eq)
qed

text \<open>Claim C3, amended, on the sample frame: bar 3 is scored and is not a win.\<close>

theorem last_bar_signal_scored_as_loss_witness:
  "(3, sample_rows PyNone PyNone PyNone PyNone ! 3)
     \<in> set (signals_of (sample_rows PyNone PyNone PyNone PyNone) 100) \<and>
   Suc 3 = length (sample_rows PyNone PyNone PyNone PyNone) \<and>
   \<not> is_win (sample_rows PyNone PyNone PyNone PyNone)
       (3, sample_rows PyNone PyNone PyNone PyNone ! 3) \<and>
   length (signals_of (sample_rows PyNone PyNone PyNone PyNone) 100) = 2"
  using last_bar_signal_scored_as_loss [of "sample_rows PyNone PyNone PyNone PyNone" 100]
  by (simp add: sample_signals_of) (simp add: sample_rows_def)

section \<open>Properties of \<open>analyze_trend\<close>\<close>

lemma last_filter_nth:
  assumes "i < length xs" "P (xs ! i)" "\<forall>j. i < j \<and> j < length xs \<longrightarrow> \<not> P (xs ! j)"
  shows "filter P xs = filter P (take i xs) @ [xs ! i]"
proof -
  have "filter P (drop (Suc i) xs) = []"
    using assms(3) by (auto simp: filter_empty_conv in_set_conv_nth)
  moreover have "xs = take i xs @ xs ! i # drop (Suc i) xs"
    using assms(1) by (rule id_take_nth_drop)
  ultimately show ?thesis
    using assms(2) by (metis filter.simps(2) filter_append)
qed

lemma iloc_last_snoc [simp]: "iloc_last (xs @ [x]) = [x]"
  by (simp add: iloc_last_def)

lemma dropna_signal_none:
  "\<forall>i<length rows. signal (rows ! i) = None \<Longrightarrow> dropna_signal rows = []"
  by (auto simp: dropna_signal_def filter_empty_conv in_set_conv_nth)

lemma dropna_signal_last:
  assumes "i < length rows" "signal (rows ! i) = Some d"
    "\<forall>j. i < j \<and> j < length rows \<longrightarrow> signal (rows ! j) = None"
  shows "iloc_last (dropna_signal rows) = [(i, rows ! i)]"
proof -
  let ?xs = "zip [0..<length rows] rows"
  let ?P = "\<lambda>(idx, r). signal r \<noteq> None"
  have 1: "i < length ?xs" using assms(1) by simp
  have 2: "?xs ! i = (i, rows ! i)" using assms(1) by simp
  have 3: "?P (?xs ! i)" using assms(2) by (simp add: 2)
  have 4: "\<forall>j. i < j \<and> j < length ?xs \<longrightarrow> \<not> ?P (?xs ! j)"
    using assms(3) by simp
  have "filter ?P ?xs = filter ?P (take i ?xs) @ [?xs ! i]"
    using 1 3 4 by (rule last_filter_nth)
  then show ?thesis by (simp add: dropna_signal_def 2)
qed

lemma generate_signals_bars:
  assumes "generate_signals lib df = Inr rows"
  shows "length rows = length df" and "i < length df \<Longrightarrow> bar (rows ! i) = df ! i"
proof -
  have rows: "rows = snd (label_loop 1 (indicators lib df))"
    using assms by (cases "label_loop 1 (indicators lib df)")
      (auto simp: generate_signals_def split: option.splits)
  show "length rows = length df" by (simp add: rows)
  show "bar (rows ! i) = df ! i" if "i < length df"
    using label_loop_cells [of 1 "indicators lib df" i] that
    by (simp add: rows same_cells_def indicators_nth)
qed

lemma analyze_trend_none:
  assumes "generate_signals lib df = Inr rows" "\<forall>i<length rows. signal (rows ! i) = None"
  shows "analyze_trend lib df = Inr NoSignal"
  using assms by (simp add: analyze_trend_def dropna_signal_none iloc_last_def)

lemma analyze_trend_last:
  assumes "generate_signals lib df = Inr rows" "i < length rows" "signal (rows ! i) = Some d"
    "\<forall>j. i < j \<and> j < length rows \<longrightarrow> signal (rows ! j) = None"
  shows "analyze_trend lib df =
     (case ATR (rows ! i) of
        PyNone \<Rightarrow> Inl TypeError
      | Fl a \<Rightarrow> Inr (Plan (Some d) (close (bar (rows ! i)))
          (case d of LONG \<Rightarrow> fsub (Num (close (bar (rows ! i)))) a
                   | SHORT \<Rightarrow> fadd (Num (close (bar (rows ! i)))) a)
          (case d of LONG \<Rightarrow> fadd (Num (close (bar (rows ! i)))) (fmul (Num 2) a)
                   | SHORT \<Rightarrow> fsub (Num (close (bar (rows ! i)))) (fmul (Num 2) a))
          (RSI (rows ! i))))"
proof (cases "ATR (rows ! i)")
  case PyNone
  then show ?thesis
    using assms(1,3) by (simp add: analyze_trend_def dropna_signal_last [OF assms(2-4)] Let_def)
next
  case (Fl a)
  show ?thesis
  proof (cases a)
    case NaN
    with Fl show ?thesis
      using assms(1,3)
      by (cases d) (simp_all add: analyze_trend_def dropna_signal_last [OF assms(2-4)] Let_def)
  next
    case (Num x)
    with Fl show ?thesis
      using assms(1,3)
      by (cases d) (simp_all add: analyze_trend_def dropna_signal_last [OF assms(2-4)] Let_def)
  qed
qed

lemma sample_rows_3:
  "length (sample_rows a0 a1 a2 a3) = 4"
  "signal (sample_rows a0 a1 a2 a3 ! 3) = Some LONG"
  "ATR (sample_rows a0 a1 a2 a3 ! 3) = a3"
  "RSI (sample_rows a0 a1 a2 a3 ! 3) = Fl (Num 50)"
  "close (bar (sample_rows a0 a1 a2 a3 ! 3)) = 13"
  "close (sample_df ! 3) = 13"
  "\<forall>j. 3 < j \<and> j < length (sample_rows a0 a1 a2 a3) \<longrightarrow> signal (sample_rows a0 a1 a2 a3 ! j) = None"
  by (simp_all add: sample_rows_def sample_row_def sample_df_def mk_candle_def)

lemma sample_analyze_trend:
  "analyze_trend (sample_lib (Some [a0, a1, a2, a3])) sample_df =
     Inr (Plan (Some LONG) 13 (fsub (Num 13) a3) (fadd (Num 13) (fmul (Num 2) a3)) (Fl (Num 50)))"
  using analyze_trend_last [OF sample_signals, of 3 a0 a1 a2 a3 LONG]
  by (simp add: sample_rows_3)

section \<open>The trade plan\<close>

text \<open>
  Claim C4. Given the labelled frame, \<open>analyze_trend\<close> returns the plan without a signal when
  no bar is labelled. Otherwise it builds the plan from the last labelled bar \<open>i\<close>: the
  direction is that bar's label, the entry its close, the momentum its RSI; with a float
  ATR \<open>a\<close> at that bar the stop is \<open>entry - a\<close> and the target \<open>entry + 2 * a\<close> for LONG,
  and the stop is \<open>entry + a\<close> and the target \<open>entry - 2 * a\<close> for SHORT.
\<close>

theorem analyze_trend_plan:
  assumes "generate_signals lib df = Inr rows"
  shows "((\<forall>i<length rows. signal (rows ! i) = None) \<longrightarrow> analyze_trend lib df = Inr NoSignal) \<and>
     (\<forall>i d a. i < length rows \<and> signal (rows ! i) = Some d \<and>
        (\<forall>j. i < j \<and> j < length rows \<longrightarrow> signal (rows ! j) = None) \<and>
        ATR (rows ! i) = Fl a \<longrightarrow>
        analyze_trend lib df =
          Inr (Plan (Some d) (close (df ! i))
                 (case d of LONG \<Rightarrow> fsub (Num (close (df ! i))) a
                          | SHORT \<Rightarrow> fadd (Num (close (df ! i))) a)
                 (case d of LONG \<Rightarrow> fadd (Num (close (df ! i))) (fmul (Num 2) a)
                          | SHORT \<Rightarrow> fsub (Num (close (df ! i))) (fmul (Num 2) a))
                 (RSI (rows ! i))))"
proof (intro conjI allI impI)
  assume "\<forall>i<length rows. signal (rows ! i) = None"
  with assms show "analyze_trend lib df = Inr NoSignal" by (rule analyze_trend_none)
next
  fix i d a
  assume h: "i < length rows \<and> signal (rows ! i) = Some d \<and>
        (\<forall>j. i < j \<and> j < length rows \<longrightarrow> signal (rows ! j) = None) \<and>
        ATR (rows ! i) = Fl a"
  then have i: "i < length df" using generate_signals_bars(1) [OF assms] by simp
  have b: "bar (rows ! i) = df ! i" using generate_signals_bars(2) [OF assms i] .
  from h have "analyze_trend lib df =
     (case ATR (rows ! i) of
        PyNone \<Rightarrow> Inl TypeError
      | Fl a \<Rightarrow> Inr (Plan (Some d) (close (bar (rows ! i)))
          (case d of LONG \<Rightarrow> fsub (Num (close (bar (rows ! i)))) a
                   | SHORT \<Rightarrow> fadd (Num (close (bar (rows ! i)))) a)
          (case d of LONG \<Rightarrow> fadd (Num (close (bar (rows ! i)))) (fmul (Num 2) a)
                   | SHORT \<Rightarrow> fsub (Num (close (bar (rows ! i)))) (fmul (Num 2) a))
          (RSI (rows ! i))))"
    by (intro analyze_trend_last [OF assms]) simp_all
  with h b show "analyze_trend lib df =
          Inr (Plan (Some d) (close (df ! i))
                 (case d of LONG \<Rightarrow> fsub (Num (close (df ! i))) a
                          | SHORT \<Rightarrow> fadd (Num (close (df ! i))) a)
                 (case d of LONG \<Rightarrow> fadd (Num (close (df ! i))) (fmul (Num 2) a)
                          | SHORT \<Rightarrow> fsub (Num (close (df ! i))) (fmul (Num 2) a))
                 (RSI (rows ! i)))"
    by (cases d) simp_all
qed

text \<open>
  Claim C4 on the sample data with an ATR of 1 (last label LONG at bar 3, close 13: stop 12,
  target 15), and on a single bar, where nothing is labelled.
\<close>

theorem analyze_trend_plan_witness:
  "generate_signals (sample_lib (Some [Num 1, Num 1, Num 1, Num 1])) sample_df =
     Inr (sample_rows (Fl (Num 1)) (Fl (Num 1)) (Fl (Num 1)) (Fl (Num 1))) \<and>
   3 < length (sample_rows (Fl (Num 1)) (Fl (Num 1)) (Fl (Num 1)) (Fl (Num 1))) \<and>
   signal (sample_rows (Fl (Num 1)) (Fl (Num 1)) (Fl (Num 1)) (Fl (Num 1)) ! 3) = Some LONG \<and>
   ATR (sample_rows (Fl (Num 1)) (Fl (Num 1)) (Fl (Num 1)) (Fl (Num 1)) ! 3) = Fl (Num 1) \<and>
   analyze_trend (sample_lib (Some [Num 1, Num 1, Num 1, Num 1])) sample_df =
     Inr (Plan (Some LONG) 13 (Num 12) (Num 15) (Fl (Num 50))) \<and>
   generate_signals guarded_lib [mk_candle 0 10] = Inr (indicators guarded_lib [mk_candle 0 10]) \<and>
   analyze_trend guarded_lib [mk_candle 0 10] = Inr NoSignal"
proof -
  let ?L = "sample_lib (Some [Num 1, Num 1, Num 1, Num 1])"
  let ?R = "sample_rows (Fl (Num 1)) (Fl (Num 1)) (Fl (Num 1)) (Fl (Num 1))"
  have g: "generate_signals ?L sample_df = Inr ?R" by (rule sample_signals)
  have "analyze_trend ?L sample_df = Inr (Plan (Some LONG) 13 (Num 12) (Num 15) (Fl (Num 50)))"
    using analyze_trend_plan [OF g, THEN conjunct2, rule_format, of 3 LONG "Num 1"]
    by (simp add: sample_rows_3)
  moreover
  have s: "generate_signals guarded_lib [mk_candle 0 10] = Inr (indicators guarded_lib [mk_candle 0 10])"
    by (rule generate_signals_short) simp
  have "analyze_trend guarded_lib [mk_candle 0 10] = Inr NoSignal"
    using analyze_trend_plan [OF s, THEN conjunct1] by (simp add: indicators_nth)
  ultimately show ?thesis
    using g s by (simp add: sample_rows_3)
qed

section \<open>The order of the price levels\<close>

text \<open>
  Claim C5 says that every returned plan with a direction has its stop, entry and target
  strictly ordered. With an ATR of 0 at the last labelled bar of the sample data the plan
  is LONG with stop, entry and target all 13.
\<close>

theorem zero_atr_plan_not_ordered:
  "analyze_trend (sample_lib (Some [Num 0, Num 0, Num 0, Num 0])) sample_df =
     Inr (Plan (Some LONG) 13 (Num 13) (Num 13) (Fl (Num 50))) \<and>
   \<not> flt (Num 13) (Num 13)"
  by (simp add: sample_analyze_trend)

text \<open>
  Claim C5, amended. When the ATR at the last labelled bar is defined and strictly
  positive, the plan returned has \<open>stop < entry < target\<close> for LONG and
  \<open>target < entry < stop\<close> for SHORT.
\<close>

theorem analyze_trend_levels_ordered:
  assumes "generate_signals lib df = Inr rows"
    and "i < length rows" and "signal (rows ! i) = Some d"
    and "\<forall>j. i < j \<and> j < length rows \<longrightarrow> signal (rows ! j) = None"
    and "ATR (rows ! i) = Fl (Num a)" and "0 < a"
  shows "\<exists>e sl tp m.
     analyze_trend lib df = Inr (Plan (Some d) e (Num sl) (Num tp) m) \<and>
     (d = LONG \<longrightarrow> sl < e \<and> e < tp) \<and>
     (d = SHORT \<longrightarrow> tp < e \<and> e < sl)"
  using analyze_trend_last [OF assms(1-4)] assms(5,6)
  by (cases d) simp_all

text \<open>Claim C5, amended, on the sample data with an ATR of 1.\<close>

theorem analyze_trend_levels_ordered_witness:
  "generate_signals (sample_lib (Some [Num 1, Num 1, Num 1, Num 1])) sample_df =
     Inr (sample_rows (Fl (Num 1)) (Fl (Num 1)) (Fl (Num 1)) (Fl (Num 1))) \<and>
   3 < length (sample_rows (Fl (Num 1)) (Fl (Num 1)) (Fl (Num 1)) (Fl (Num 1))) \<and>
   signal (sample_rows (Fl (Num 1)) (Fl (Num 1)) (Fl (Num 1)) (Fl (Num 1)) ! 3) = Some LONG \<and>
   ATR (sample_rows (Fl (Num 1)) (Fl (Num 1)) (Fl (Num 1)) (Fl (Num 1)) ! 3) = Fl (Num 1) \<and>
   (0::real) < 1 \<and>
   (\<exists>e sl tp m.
      analyze_trend (sample_lib (Some [Num 1, Num 1, Num 1, Num 1])) sample_df =
        Inr (Plan (Some LONG) e (Num sl) (Num tp) m) \<and> sl < e \<and> e < tp)"
proof -
  let ?R = "sample_rows (Fl (Num 1)) (Fl (Num 1)) (Fl (Num 1)) (Fl (Num 1))"
  have 1: "3 < length ?R" and 2: "signal (?R ! 3) = Some LONG"
    and 3: "\<forall>j. 3 < j \<and> j < length ?R \<longrightarrow> signal (?R ! j) = None"
    and 4: "ATR (?R ! 3) = Fl (Num 1)" and 5: "(0::real) < 1"
    by (simp_all add: sample_rows_3)
  from analyze_trend_levels_ordered [OF sample_signals 1 2 3 4 5] 1 2 4 5
  show ?thesis by (simp add: sample_signals)
qed

section \<open>An undefined ATR\<close>

text \<open>
  Claim C7 says that the plan builder raises when the ATR at the last labelled bar is
  undefined. With an ATR series of NaN on the sample data it returns a LONG plan with
  entry 13 whose stop and target are NaN.
\<close>

theorem undefined_atr_plan_returned:
  "ATR (sample_rows (Fl NaN) (Fl NaN) (Fl NaN) (Fl NaN) ! 3) = Fl NaN \<and>
   generate_signals (sample_lib (Some [NaN, NaN, NaN, NaN])) sample_df =
     Inr (sample_rows (Fl NaN) (Fl NaN) (Fl NaN) (Fl NaN)) \<and>
   analyze_trend (sample_lib (Some [NaN, NaN, NaN, NaN])) sample_df =
     Inr (Plan (Some LONG) 13 NaN NaN (Fl (Num 50)))"
  by (simp add: sample_analyze_trend sample_signals sample_rows_3)

text \<open>
  Claim C7, amended. When the ATR at the last labelled bar is undefined (NaN),
  \<open>analyze_trend\<close> raises nothing: it returns the plan with that bar's label, close and RSI,
  and with an undefined stop and target; no value is computed from a zero or default ATR.
\<close>

theorem analyze_trend_undefined_atr:
  assumes "generate_signals lib df = Inr rows"
    and "i < length rows" and "signal (rows ! i) = Some d"
    and "\<forall>j. i < j \<and> j < length rows \<longrightarrow> signal (rows ! j) = None"
    and "ATR (rows ! i) = Fl NaN"
  shows "analyze_trend lib df = Inr (Plan (Some d) (close (bar (rows ! i))) NaN NaN (RSI (rows ! i)))"
  using analyze_trend_last [OF assms(1-4)] assms(5)
  by (cases d) simp_all

text \<open>Claim C7, amended, on the sample data with an undefined ATR at bar 3.\<close>

theorem analyze_trend_undefined_atr_witness:
  "generate_signals (sample_lib (Some [Num 1, Num 1, Num 1, NaN])) sample_df =
     Inr (sample_rows (Fl (Num 1)) (Fl (Num 1)) (Fl (Num 1)) (Fl NaN)) \<and>
   3 < length (sample_rows (Fl (Num 1)) (Fl (Num 1)) (Fl (Num 1)) (Fl NaN)) \<and>
   signal (sample_rows (Fl (Num 1)) (Fl (Num 1)) (Fl (Num 1)) (Fl NaN) ! 3) = Some LONG \<and>
   ATR (sample_rows (Fl (Num 1)) (Fl (Num 1)) (Fl (Num 1)) (Fl NaN) ! 3) = Fl NaN \<and>
   analyze_trend (sample_lib (Some [Num 1, Num 1, Num 1, NaN])) sample_df =
     Inr (Plan (Some LONG) 13 NaN NaN (Fl (Num 50)))"
proof -
  let ?R = "sample_rows (Fl (Num 1)) (Fl (Num 1)) (Fl (Num 1)) (Fl NaN)"
  have 1: "3 < length ?R" and 2: "signal (?R ! 3) = Some LONG"
    and 3: "\<forall>j. 3 < j \<and> j < length ?R \<longrightarrow> signal (?R ! j) = None"
    and 4: "ATR (?R ! 3) = Fl NaN"
    by (simp_all add: sample_rows_3)
  from analyze_trend_undefined_atr [OF sample_signals 1 2 3 4] 1 2 4
  show ?thesis by (simp add: sample_signals sample_rows_3)
qed

section \<open>The frame as an object\<close>

lemma label_loop_bars: "map bar (snd (label_loop i df)) = map bar df"
proof (rule nth_equalityI)
  show "length (map bar (snd (label_loop i df))) = length (map bar df)" by simp
next
  fix j assume "j < length (map bar (snd (label_loop i df)))"
  then have j: "j < length df" by simp
  show "map bar (snd (label_loop i df)) ! j = map bar df ! j"
    using label_loop_cells [of i df j] j by (simp add: same_cells_def)
qed

lemma bars_indicators: "map bar (indicators lib cs) = cs"
  by (rule nth_equalityI) (simp_all add: indicators_nth)

lemma sample_heap_run:
  "generate_signals_heap (sample_lib (Some [a0, a1, a2, a3])) sample_heap 0 =
     (Inr 0, sample_heap(0 := Rows (sample_rows (Fl a0) (Fl a1) (Fl a2) (Fl a3))))"
  by (simp add: generate_signals_heap_def sample_heap_def sample_label_loop [unfolded One_nat_def])

text \<open>
  Claim C8 says that \<open>generate_signals\<close> leaves its argument as it was and returns a new
  value. On the sample heap the call on reference 0 returns reference 0 itself, and the
  frame held there, which had the candle columns only, now carries the indicator and
  signal columns.
\<close>

theorem in_place_columns_added:
  "sample_heap 0 = Candles sample_df \<and>
   fst (generate_signals_heap (sample_lib (Some [Num 1, Num 1, Num 1, Num 1])) sample_heap 0) = Inr 0 \<and>
   snd (generate_signals_heap (sample_lib (Some [Num 1, Num 1, Num 1, Num 1])) sample_heap 0) 0 =
     Rows (sample_rows (Fl (Num 1)) (Fl (Num 1)) (Fl (Num 1)) (Fl (Num 1))) \<and>
   snd (generate_signals_heap (sample_lib (Some [Num 1, Num 1, Num 1, Num 1])) sample_heap 0) 0 \<noteq>
     sample_heap 0"
  by (simp add: sample_heap_run) (simp add: sample_heap_def)

text \<open>
  Claim C8, amended. \<open>generate_signals\<close> works in place: it adds the indicator and signal
  columns to the frame it is given and returns that same frame. The candle columns and
  the number of rows of the frame are unchanged, and no other frame is touched. The
  labelled rows are those of the value-level function.
\<close>

theorem generate_signals_heap_frame:
  assumes "generate_signals_heap lib h df = (res, h')"
  shows "candles_of (h' df) = candles_of (h df) \<and>
     (\<forall>r. r \<noteq> df \<longrightarrow> h' r = h r) \<and>
     (\<forall>r. res = Inr r \<longrightarrow> r = df) \<and>
     (\<exists>rows. h' df = Rows rows \<and> length rows = length (candles_of (h df)) \<and>
        (res = Inr df \<longleftrightarrow> generate_signals lib (candles_of (h df)) = Inr rows))"
proof -
  let ?cs = "candles_of (h df)"
  obtain err rows where l: "label_loop 1 (indicators lib ?cs) = (err, rows)"
    by (cases "label_loop 1 (indicators lib ?cs)")
  have rows: "rows = snd (label_loop 1 (indicators lib ?cs))" unfolding l by simp
  have h': "h' = h(df := Rows rows)" and res: "res = (case err of None \<Rightarrow> Inr df | Some e \<Rightarrow> Inl e)"
    using assms l by (auto simp: generate_signals_heap_def split: option.splits)
  have bars: "map bar rows = ?cs"
    unfolding rows by (simp add: label_loop_bars bars_indicators)
  have len: "length rows = length ?cs"
    unfolding rows by simp
  have gs: "res = Inr df \<longleftrightarrow> generate_signals lib ?cs = Inr rows"
    using l by (cases err) (simp_all add: res generate_signals_def)
  show ?thesis
    using bars len gs by (auto simp: h' res split: option.splits)
qed

text \<open>Claim C8, amended, on the sample heap.\<close>

theorem generate_signals_heap_frame_witness:
  "generate_signals_heap (sample_lib (Some [Num 1, Num 1, Num 1, Num 1])) sample_heap 0 =
     (Inr 0, sample_heap(0 := Rows (sample_rows (Fl (Num 1)) (Fl (Num 1)) (Fl (Num 1)) (Fl (Num 1))))) \<and>
   candles_of ((sample_heap(0 := Rows (sample_rows (Fl (Num 1)) (Fl (Num 1)) (Fl (Num 1)) (Fl (Num 1))))) 0) =
     sample_df \<and>
   (sample_heap(0 := Rows (sample_rows (Fl (Num 1)) (Fl (Num 1)) (Fl (Num 1)) (Fl (Num 1))))) 1 =
     sample_heap 1"
proof -
  let ?L = "sample_lib (Some [Num 1, Num 1, Num 1, Num 1])"
  let ?h' = "sample_heap(0 := Rows (sample_rows (Fl (Num 1)) (Fl (Num 1)) (Fl (Num 1)) (Fl (Num 1))))"
  have g: "generate_signals_heap ?L sample_heap 0 = (Inr 0, ?h')"
    by (rule sample_heap_run)
  from generate_signals_heap_frame [OF g]
  have "candles_of (?h' 0) = candles_of (sample_heap 0)" and "?h' 1 = sample_heap 1"
    by simp_all
  with g show ?thesis by (simp add: sample_heap_def)
qed

section \<open>Calls to the exchange\<close>

lemma fetch_attempts_calls:
  assumes "fetch_attempts ex req k t = (r, t')" "0 < k"
  shows "t < t' \<and> t' \<le> t + k \<and> (\<forall>j. t \<le> j \<and> j < t' - 1 \<longrightarrow> ex j req = None) \<and>
     (case ex (t' - 1) req of
        None \<Rightarrow> t' = t + k \<and> r = Inl ConnectionError
      | Some df \<Rightarrow> r = Inr df)"
  using assms
proof (induction k arbitrary: t)
  case 0
  then show ?case by simp
next
  case (Suc k)
  show ?case
  proof (cases "ex t req")
    case (Some df)
    with Suc.prems show ?thesis by auto
  next
    case None
    with Suc.prems have rec: "fetch_attempts ex req k (Suc t) = (r, t')" by simp
    show ?thesis
    proof (cases k)
      case 0
      with rec None show ?thesis by auto
    next
      case (Suc k')
      then have "0 < k" by simp
      from Suc.IH [OF rec this]
      have ih: "Suc t < t'" "t' \<le> Suc t + k"
        "\<forall>j. Suc t \<le> j \<and> j < t' - 1 \<longrightarrow> ex j req = None"
        "case ex (t' - 1) req of None \<Rightarrow> t' = Suc t + k \<and> r = Inl ConnectionError
           | Some df \<Rightarrow> r = Inr df"
        by simp_all
      have "ex j req = None" if "t \<le> j \<and> j < t' - 1" for j
        using that ih(3) None by (cases "j = t") auto
      with ih show ?thesis by (auto split: option.splits)
    qed
  qed
qed

lemma fetch_klines_calls:
  assumes "fetch_klines ex smb itv lmt t = (r, t')"
  shows "t < t' \<and> t' \<le> t + 3 \<and>
     (\<forall>j. t \<le> j \<and> j < t' - 1 \<longrightarrow> ex j \<lparr>symbol = smb, interval = itv, limit = lmt\<rparr> = None) \<and>
     (case ex (t' - 1) \<lparr>symbol = smb, interval = itv, limit = lmt\<rparr> of
        None \<Rightarrow> t' = t + 3 \<and> r = Inl ConnectionError
      | Some df \<Rightarrow> r = Inr df)"
  using fetch_attempts_calls [of ex "\<lparr>symbol = smb, interval = itv, limit = lmt\<rparr>" 3 t r t'] assms
  by (simp add: fetch_klines_def)

lemma calculate_win_rate_fetch:
  "calculate_win_rate ex lib smb itv lookback t =
     (case fetch_klines ex smb itv (lookback + 50) t of
        (Inl e, t') \<Rightarrow> (Inl e, t')
      | (Inr df, t') \<Rightarrow>
          (case generate_signals lib df of Inl e \<Rightarrow> Inl e | Inr rows \<Rightarrow> win_rate rows lookback, t'))"
  by (simp add: calculate_win_rate_def split: prod.splits sum.splits)

lemma calculate_win_rate_calls:
  assumes "calculate_win_rate ex lib smb itv lookback t = (res, t')"
  shows "t < t' \<and> t' \<le> t + 3 \<and>
     (\<forall>j. t \<le> j \<and> j < t' - 1 \<longrightarrow>
        ex j \<lparr>symbol = smb, interval = itv, limit = lookback + 50\<rparr> = None) \<and>
     (case ex (t' - 1) \<lparr>symbol = smb, interval = itv, limit = lookback + 50\<rparr> of
        None \<Rightarrow> t' = t + 3 \<and> res = Inl ConnectionError
      | Some df \<Rightarrow>
          res = (case generate_signals lib df of
                   Inl e \<Rightarrow> Inl e
                 | Inr rows \<Rightarrow> win_rate rows lookback))"
proof -
  obtain r u where f: "fetch_klines ex smb itv (lookback + 50) t = (r, u)"
    by (cases "fetch_klines ex smb itv (lookback + 50) t")
  have "(res, t') = (case r of Inl e \<Rightarrow> Inl e
      | Inr df \<Rightarrow> (case generate_signals lib df of Inl e \<Rightarrow> Inl e | Inr rows \<Rightarrow> win_rate rows lookback), u)"
    using assms f by (cases r) (simp_all add: calculate_win_rate_fetch)
  then have u: "u = t'" and res: "res = (case r of Inl e \<Rightarrow> Inl e
      | Inr df \<Rightarrow> (case generate_signals lib df of Inl e \<Rightarrow> Inl e | Inr rows \<Rightarrow> win_rate rows lookback))"
    by simp_all
  from fetch_klines_calls [OF f] show ?thesis
    unfolding u res by (auto split: option.splits)
qed

lemma sample_calculate_win_rate:
  "calculate_win_rate (flaky_exchange sample_df) (sample_lib (Some [a0, a1, a2, a3]))
     smb itv 100 0 = (Inr 50, 2)"
  by (simp add: calculate_win_rate_def fetch_klines_def flaky_exchange_def numeral_3_eq_3
      sample_signals sample_win_rate)

lemma sample_signals_of_neg:
  "signals_of (sample_rows a0 a1 a2 a3) (- 1) = [(3, sample_row 3 3 50 a3 (Some LONG))]"
  by (simp add: signals_of_def sample_dropna tail_def)

lemma empty_calculate_win_rate:
  "calculate_win_rate (flaky_exchange []) lib smb itv 100 0 = (Inr 0, 2)"
proof -
  have "generate_signals lib [] = Inr []"
    by (simp add: generate_signals_short indicators_def)
  moreover have "win_rate [] 100 = Inr 0"
    by (simp add: win_rate_eq signals_of_def dropna_signal_def tail_def)
  ultimately show ?thesis
    by (simp add: calculate_win_rate_def fetch_klines_def flaky_exchange_def numeral_3_eq_3)
qed

text \<open>
  Claim C9 says that the evaluator makes no external call and is a function of data
  fetched before. \<open>calculate_win_rate\<close> takes a symbol, not candles, and fetches them
  itself: started with no call made, it has made two when it returns (the first failed),
  and with the same arguments its result follows the exchange's answer.
\<close>

theorem fetch_inside_win_rate:
  "calculate_win_rate (flaky_exchange sample_df) (sample_lib (Some [Num 1, Num 1, Num 1, Num 1]))
     ''BTCUSDT'' ''1h'' 100 0 = (Inr 50, 2) \<and>
   calculate_win_rate (flaky_exchange []) (sample_lib (Some [Num 1, Num 1, Num 1, Num 1]))
     ''BTCUSDT'' ''1h'' 100 0 = (Inr 0, 2)"
  by (simp add: sample_calculate_win_rate empty_calculate_win_rate)

text \<open>
  Claim C9, amended. \<open>calculate_win_rate\<close> calls the exchange at the start, at least once
  and at most three times, each call but the last one failing; no call is made after
  that. When the last call fails too the result is \<open>ConnectionError\<close>; otherwise the whole
  result, signals and score, is computed from the one frame that call answered, so two
  runs that are answered the same frame give the same result.
\<close>

theorem calculate_win_rate_single_pull:
  assumes "calculate_win_rate ex lib smb itv lookback t = (res, t')"
  shows "t < t' \<and> t' \<le> t + 3 \<and>
     (\<forall>j. t \<le> j \<and> j < t' - 1 \<longrightarrow>
        ex j \<lparr>symbol = smb, interval = itv, limit = lookback + 50\<rparr> = None) \<and>
     (case ex (t' - 1) \<lparr>symbol = smb, interval = itv, limit = lookback + 50\<rparr> of
        None \<Rightarrow> t' = t + 3 \<and> res = Inl ConnectionError
      | Some df \<Rightarrow>
          res = (case generate_signals lib df of
                   Inl e \<Rightarrow> Inl e
                 | Inr rows \<Rightarrow> win_rate rows lookback))"
  using assms by (rule calculate_win_rate_calls)

text \<open>Claim C9, amended, on the exchange whose first call fails.\<close>

theorem calculate_win_rate_single_pull_witness:
  "calculate_win_rate (flaky_exchange sample_df) (sample_lib (Some [Num 1, Num 1, Num 1, Num 1]))
     ''BTCUSDT'' ''1h'' 100 0 = (Inr 50, 2) \<and>
   flaky_exchange sample_df 0 \<lparr>symbol = ''BTCUSDT'', interval = ''1h'', limit = 100 + 50\<rparr> = None \<and>
   flaky_exchange sample_df (2 - 1) \<lparr>symbol = ''BTCUSDT'', interval = ''1h'', limit = 100 + 50\<rparr> =
     Some sample_df \<and>
   (case generate_signals (sample_lib (Some [Num 1, Num 1, Num 1, Num 1])) sample_df of
      Inl e \<Rightarrow> Inl e | Inr rows \<Rightarrow> win_rate rows 100) = Inr 50"
proof -
  have g: "calculate_win_rate (flaky_exchange sample_df)
      (sample_lib (Some [Num 1, Num 1, Num 1, Num 1])) ''BTCUSDT'' ''1h'' 100 0 = (Inr 50, 2)"
    by (rule sample_calculate_win_rate)
  from calculate_win_rate_single_pull [OF g] g show ?thesis
    by (simp add: flaky_exchange_def)
qed

section \<open>The window of the sample\<close>

text \<open>
  Claim C10 says that for every lookback \<open>L\<close> the sample size never exceeds \<open>L\<close>. For
  \<open>L = -1\<close>, \<open>tail(-1)\<close> keeps every labelled row but the first: on the sample frame one
  signal is scored, and 1 exceeds -1.
\<close>

theorem negative_lookback_sample:
  "signals_of (sample_rows PyNone PyNone PyNone PyNone) (- 1) =
     [(3, sample_rows PyNone PyNone PyNone PyNone ! 3)] \<and>
   \<not> int (length (signals_of (sample_rows PyNone PyNone PyNone PyNone) (- 1))) \<le> - 1"
  by (simp add: sample_signals_of_neg) (simp add: sample_rows_def)

text \<open>
  Claim C10, amended. Whenever \<open>calculate_win_rate\<close> returns a rate, the scored signals
  are labelled rows of the one frame the exchange answered to the request with limit
  \<open>L + 50\<close>, each at its own index, so no bar outside that frame enters the sample; and
  for \<open>L \<ge> 0\<close> the sample size is at most \<open>L\<close>.
\<close>

theorem calculate_win_rate_window:
  assumes "calculate_win_rate ex lib smb itv lookback t = (Inr w, t')"
  shows "\<exists>df rows.
     ex (t' - 1) \<lparr>symbol = smb, interval = itv, limit = lookback + 50\<rparr> = Some df \<and>
     generate_signals lib df = Inr rows \<and> win_rate rows lookback = Inr w \<and>
     (\<forall>s \<in> set (signals_of rows lookback).
        fst s < length df \<and> snd s = rows ! fst s \<and> bar (snd s) = df ! fst s \<and>
        signal (snd s) \<noteq> None) \<and>
     (0 \<le> lookback \<longrightarrow> int (length (signals_of rows lookback)) \<le> lookback)"
proof -
  let ?req = "\<lparr>symbol = smb, interval = itv, limit = lookback + 50\<rparr>"
  from calculate_win_rate_calls [OF assms]
  have c: "case ex (t' - 1) ?req of
        None \<Rightarrow> t' = t + 3 \<and> Inr w = Inl ConnectionError
      | Some df \<Rightarrow>
          Inr w = (case generate_signals lib df of
                   Inl e \<Rightarrow> Inl e
                 | Inr rows \<Rightarrow> win_rate rows lookback)"
    by blast
  then obtain df where df: "ex (t' - 1) ?req = Some df"
    by (cases "ex (t' - 1) ?req") simp_all
  with c have w: "Inr w = (case generate_signals lib df of
                   Inl e \<Rightarrow> Inl e
                 | Inr rows \<Rightarrow> win_rate rows lookback)"
    by simp
  then obtain rows where rows: "generate_signals lib df = Inr rows"
    by (cases "generate_signals lib df") simp_all
  with w have wr: "win_rate rows lookback = Inr w" by simp
  have len: "length rows = length df" using generate_signals_bars(1) [OF rows] .
  have mem: "fst s < length df \<and> snd s = rows ! fst s \<and> bar (snd s) = df ! fst s \<and>
        signal (snd s) \<noteq> None" if "s \<in> set (signals_of rows lookback)" for s
  proof -
    obtain i r where s: "s = (i, r)" by (cases s)
    from that have "(i, r) \<in> set (signals_of rows lookback)" by (simp add: s)
    from signals_of_mem [OF this]
    have m: "i < length rows" "r = rows ! i" "signal r \<noteq> None" by blast+
    then have "bar r = df ! i" using generate_signals_bars(2) [OF rows, of i] len by simp
    with m len show ?thesis by (simp add: s)
  qed
  have "0 \<le> lookback \<longrightarrow> int (length (signals_of rows lookback)) \<le> lookback"
    by (simp add: signals_of_def length_tail_le)
  with df rows wr mem show ?thesis by blast
qed

text \<open>Claim C10, amended, on the sample data with a lookback of 100.\<close>

theorem calculate_win_rate_window_witness:
  "calculate_win_rate (flaky_exchange sample_df) (sample_lib (Some [Num 1, Num 1, Num 1, Num 1]))
     ''BTCUSDT'' ''1h'' 100 0 = (Inr 50, 2) \<and>
   (\<exists>df rows.
     flaky_exchange sample_df (2 - 1) \<lparr>symbol = ''BTCUSDT'', interval = ''1h'', limit = 100 + 50\<rparr> =
       Some df \<and>
     generate_signals (sample_lib (Some [Num 1, Num 1, Num 1, Num 1])) df = Inr rows \<and>
     win_rate rows 100 = Inr 50 \<and>
     (0::int) \<le> 100 \<and> int (length (signals_of rows 100)) \<le> 100)"
proof -
  have g: "calculate_win_rate (flaky_exchange sample_df)
      (sample_lib (Some [Num 1, Num 1, Num 1, Num 1])) ''BTCUSDT'' ''1h'' 100 0 = (Inr 50, 2)"
    by (rule sample_calculate_win_rate)
  from calculate_win_rate_window [OF g] obtain df rows where
    "flaky_exchange sample_df (2 - 1) \<lparr>symbol = ''BTCUSDT'', interval = ''1h'', limit = 100 + 50\<rparr> =
       Some df"
    "generate_signals (sample_lib (Some [Num 1, Num 1, Num 1, Num 1])) df = Inr rows"
    "win_rate rows 100 = Inr 50"
    "(0::int) \<le> 100 \<longrightarrow> int (length (signals_of rows 100)) \<le> 100"
    by blast
  with g show ?thesis by auto
qed

end
